theory Spec2Isabelle
  imports Complex_Main
begin

section \<open>The Path Store: paths.txt\<close>

text \<open>
  The controller keeps the two selected media paths in the file \<^verbatim>\<open>paths.txt\<close>
  (\<^verbatim>\<open>PATHS_FILE\<close>). The file is modelled by its content: \<open>None\<close> when
  \<^verbatim>\<open>fs.existsSync\<close> is false, \<open>Some content\<close> otherwise. Strings are lists of
  characters, as in the source.
\<close>

definition LF :: char where
  "LF = CHR 0x0A"

definition CR :: char where
  "CR = CHR 0x0D"

text \<open>
  \<^verbatim>\<open>content.split(/\r?\n/)\<close>: the text is cut at every line feed, and a carriage
  return standing right before a line feed belongs to the separator. The result always
  has at least one element.
\<close>

fun split_lines :: "string \<Rightarrow> string list" where
  "split_lines [] = [[]]"
| "split_lines (c # cs) =
     (if c = LF then [] # split_lines cs
      else if c = CR \<and> cs \<noteq> [] \<and> hd cs = LF then [] # split_lines (tl cs)
      else (case split_lines cs of
              [] \<Rightarrow> [[c]]
            | l # ls \<Rightarrow> (c # l) # ls))"

text \<open>\<^verbatim>\<open>line.startsWith(p)\<close>.\<close>

definition startsWith :: "string \<Rightarrow> string \<Rightarrow> bool" where
  "startsWith line p = (take (length p) line = p)"

text \<open>
  \<^verbatim>\<open>line.replace(p, r)\<close> with a string pattern: the first occurrence of \<open>p\<close>,
  searched from the left, is replaced by \<open>r\<close>; a line without the pattern is returned
  as it is. (The source only passes the replacement \<^verbatim>\<open>""\<close>, which has no
  \<^verbatim>\<open>$\<close> patterns.)
\<close>

fun replace_first :: "string \<Rightarrow> string \<Rightarrow> string \<Rightarrow> string" where
  "replace_first p r [] = (if p = [] then r else [])"
| "replace_first p r (c # cs) =
     (if startsWith (c # cs) p then r @ drop (length p) (c # cs)
      else c # replace_first p r cs)"

definition MASTER_KEY :: string where
  "MASTER_KEY = ''MASTER_VIDEO_PATH=''"

definition SLAVE_KEY :: string where
  "SLAVE_KEY = ''SLAVE_VIDEO_PATH=''"

text \<open>
  The body of the \<^verbatim>\<open>lines.forEach\<close> callback of \<^verbatim>\<open>readPaths\<close>: the pair is
  \<^verbatim>\<open>(masterFile, slaveFile)\<close>, the two variables the callback assigns. The two
  tests are independent \<^verbatim>\<open>if\<close>s, and a later line overwrites an earlier one.
\<close>

definition read_line :: "string \<times> string \<Rightarrow> string \<Rightarrow> string \<times> string" where
  "read_line acc line =
     (let masterFile = (if startsWith line MASTER_KEY
                        then replace_first MASTER_KEY [] line else fst acc);
          slaveFile = (if startsWith line SLAVE_KEY
                       then replace_first SLAVE_KEY [] line else snd acc)
      in (masterFile, slaveFile))"

text \<open>
  \<^verbatim>\<open>readPaths()\<close>: the result \<^verbatim>\<open>{ masterFile, slaveFile }\<close> is the pair
  \<open>(masterFile, slaveFile)\<close>. An absent file gives two empty strings.
\<close>

definition readPaths :: "string option \<Rightarrow> string \<times> string" where
  "readPaths file =
     (case file of
        None \<Rightarrow> ([], [])
      | Some content \<Rightarrow> foldl read_line ([], []) (split_lines content))"

text \<open>
  The text \<^verbatim>\<open>savePaths(masterFile, slaveFile)\<close> hands to
  \<^verbatim>\<open>fs.writeFileSync\<close>: the template
  \<^verbatim>\<open>`MASTER_VIDEO_PATH=${masterFile}\nSLAVE_VIDEO_PATH=${slaveFile}`\<close>.
\<close>

definition paths_text :: "string \<Rightarrow> string \<Rightarrow> string" where
  "paths_text masterFile slaveFile =
     MASTER_KEY @ masterFile @ [LF] @ SLAVE_KEY @ slaveFile"

section \<open>JavaScript numbers\<close>

text \<open>
  A number of the language is an IEEE 754 double: a finite value, an infinity or
  \<^verbatim>\<open>NaN\<close>. A finite double is modelled by the real it stands for (\<^verbatim>\<open>-0\<close> and
  \<^verbatim>\<open>+0\<close> are both 0).
\<close>

datatype jsnum = Fin real | PosInf | NegInf | NaN

text \<open>The integer nearest to \<open>q\<close>, the even one when two are equally near.\<close>

definition round_half_even :: "real \<Rightarrow> int" where
  "round_half_even q =
     (let f = \<lfloor>q\<rfloor>; d = q - of_int f
      in if d < 1 / 2 then f
         else if 1 / 2 < d then f + 1
         else if even f then f else f + 1)"

text \<open>
  The double a real result is rounded to (round to nearest, ties to even): with \<open>e\<close> the
  binary exponent of \<open>x\<close>, not below -1022 (the subnormal range), the doubles around \<open>x\<close>
  are the multiples of \<open>2 ^ (e - 52)\<close>; a result that reaches \<open>2 ^ 1024\<close> is an
  infinity.
\<close>

definition round64 :: "real \<Rightarrow> jsnum" where
  "round64 x =
     (if x = 0 then Fin 0
      else
       (let e = max \<lfloor>log 2 \<bar>x\<bar>\<rfloor> (- 1022);
            u = 2 powr of_int (e - 52);
            r = u * of_int (round_half_even (x / u))
        in if 2 ^ 1024 \<le> \<bar>r\<bar> then (if 0 < x then PosInf else NegInf) else Fin r))"

text \<open>
  Where the model writes a number as a real \<open>x\<close> (a time in a status document, a number
  in the request body), \<open>x\<close> is the value of the number literal in the JSON text, and the
  number the handler works with is the double that literal is parsed to, \<open>round64 x\<close>.
\<close>

text \<open>
  \<^verbatim>\<open>a + b\<close>, \<^verbatim>\<open>-b\<close> and \<^verbatim>\<open>a - b\<close> on numbers: on finite operands the exact
  result, rounded to a double; infinities of opposite sign add up to \<^verbatim>\<open>NaN\<close>.
\<close>

fun js_add :: "jsnum \<Rightarrow> jsnum \<Rightarrow> jsnum" where
  "js_add NaN b = NaN"
| "js_add a NaN = NaN"
| "js_add PosInf NegInf = NaN"
| "js_add NegInf PosInf = NaN"
| "js_add PosInf b = PosInf"
| "js_add a PosInf = PosInf"
| "js_add NegInf b = NegInf"
| "js_add a NegInf = NegInf"
| "js_add (Fin x) (Fin y) = round64 (x + y)"

fun js_neg :: "jsnum \<Rightarrow> jsnum" where
  "js_neg (Fin x) = Fin (- x)"
| "js_neg PosInf = NegInf"
| "js_neg NegInf = PosInf"
| "js_neg NaN = NaN"

definition js_sub :: "jsnum \<Rightarrow> jsnum \<Rightarrow> jsnum" where
  "js_sub a b = js_add a (js_neg b)"

text \<open>\<^verbatim>\<open>a < b\<close> on numbers: false when either is \<^verbatim>\<open>NaN\<close>.\<close>

fun js_less :: "jsnum \<Rightarrow> jsnum \<Rightarrow> bool" where
  "js_less NaN b = False"
| "js_less a NaN = False"
| "js_less a NegInf = False"
| "js_less PosInf b = False"
| "js_less NegInf b = True"
| "js_less a PosInf = True"
| "js_less (Fin x) (Fin y) = (x < y)"

text \<open>\<^verbatim>\<open>Math.max(a, b)\<close>: \<^verbatim>\<open>NaN\<close> when either is, the larger one otherwise.\<close>

fun js_max :: "jsnum \<Rightarrow> jsnum \<Rightarrow> jsnum" where
  "js_max NaN b = NaN"
| "js_max a NaN = NaN"
| "js_max PosInf b = PosInf"
| "js_max a PosInf = PosInf"
| "js_max NegInf b = b"
| "js_max a NegInf = a"
| "js_max (Fin x) (Fin y) = Fin (max x y)"

text \<open>
  \<^verbatim>\<open>Math.abs(d) > t\<close> for a finite \<open>t\<close>: true of both infinities, false of
  \<^verbatim>\<open>NaN\<close>.
\<close>

fun abs_exceeds :: "jsnum \<Rightarrow> real \<Rightarrow> bool" where
  "abs_exceeds (Fin d) t = (t < \<bar>d\<bar>)"
| "abs_exceeds PosInf t = True"
| "abs_exceeds NegInf t = True"
| "abs_exceeds NaN t = False"

text \<open>\<^verbatim>\<open>n > 0\<close> on a number.\<close>

fun positive :: "jsnum \<Rightarrow> bool" where
  "positive (Fin x) = (0 < x)"
| "positive PosInf = True"
| "positive NegInf = False"
| "positive NaN = False"

section \<open>JavaScript values of the request body\<close>

text \<open>
  The fields \<^verbatim>\<open>command\<close>, \<^verbatim>\<open>seekValue\<close> and \<^verbatim>\<open>speed\<close> of \<^verbatim>\<open>req.body\<close> are
  whatever the client sent: a JSON body gives \<^verbatim>\<open>null\<close>, booleans, numbers (a literal
  beyond the range of the doubles is an infinity), strings, arrays and objects; a
  form-encoded body gives strings, arrays and objects; a missing field is
  \<^verbatim>\<open>undefined\<close>. \<open>JNum x\<close> is the number written as a literal of value \<open>x\<close>, that is the
  double \<open>round64 x\<close>. A string is the list of the bytes of its UTF-8 encoding. The handler
  only tests an array or an object for truthiness and converts it to a number, so
  \<open>JObject r\<close> stands for any array or object by the result \<open>r\<close> of that conversion:
  \<open>Some n\<close> when the language converts it to the number \<open>n\<close> (\<^verbatim>\<open>[5]\<close> to 5, \<^verbatim>\<open>[]\<close> to
  0, \<^verbatim>\<open>{}\<close> and \<^verbatim>\<open>[1,2]\<close> to \<^verbatim>\<open>NaN\<close>), \<open>None\<close> when the conversion throws a
  \<^verbatim>\<open>TypeError\<close> (an object with a property named \<^verbatim>\<open>toString\<close>, which JSON can only
  fill with something that cannot be called). \<open>JNaN\<close> is the number \<^verbatim>\<open>NaN\<close>, which no
  body carries but arithmetic can produce.
\<close>

datatype jsval =
    JUndefined
  | JNull
  | JBool bool
  | JNum real
  | JInfinity bool
  | JNaN
  | JStr string
  | JObject "jsnum option"

text \<open>A number as a value; \<open>JInfinity True\<close> is \<^verbatim>\<open>Infinity\<close>, \<open>JInfinity False\<close> is \<^verbatim>\<open>-Infinity\<close>.\<close>

fun num_value :: "jsnum \<Rightarrow> jsval" where
  "num_value (Fin x) = JNum x"
| "num_value PosInf = JInfinity True"
| "num_value NegInf = JInfinity False"
| "num_value NaN = JNaN"

text \<open>Truthiness, as tested by \<^verbatim>\<open>if (v)\<close>, \<^verbatim>\<open>v && ...\<close> and \<^verbatim>\<open>!v\<close>.\<close>

fun truthy :: "jsval \<Rightarrow> bool" where
  "truthy JUndefined = False"
| "truthy JNull = False"
| "truthy (JBool b) = b"
| "truthy (JNum x) = (round64 x \<noteq> Fin 0)"
| "truthy (JInfinity b) = True"
| "truthy JNaN = False"
| "truthy (JStr s) = (s \<noteq> [])"
| "truthy (JObject r) = True"

text \<open>
  The white space and line terminators the language strips from both ends of a string
  before it reads it as a number, each as the bytes of its UTF-8 encoding: U+0009 to
  U+000D, U+0020, U+00A0, U+1680, U+2000 to U+200A, U+2028, U+2029, U+202F, U+205F,
  U+3000 and U+FEFF.
\<close>

definition white_space :: "string list" where
  "white_space =
     [[CHR 0x09], [CHR 0x0A], [CHR 0x0B], [CHR 0x0C], [CHR 0x0D], [CHR 0x20],
      [CHR 0xC2, CHR 0xA0],
      [CHR 0xE1, CHR 0x9A, CHR 0x80],
      [CHR 0xE2, CHR 0x80, CHR 0x80], [CHR 0xE2, CHR 0x80, CHR 0x81],
      [CHR 0xE2, CHR 0x80, CHR 0x82], [CHR 0xE2, CHR 0x80, CHR 0x83],
      [CHR 0xE2, CHR 0x80, CHR 0x84], [CHR 0xE2, CHR 0x80, CHR 0x85],
      [CHR 0xE2, CHR 0x80, CHR 0x86], [CHR 0xE2, CHR 0x80, CHR 0x87],
      [CHR 0xE2, CHR 0x80, CHR 0x88], [CHR 0xE2, CHR 0x80, CHR 0x89],
      [CHR 0xE2, CHR 0x80, CHR 0x8A],
      [CHR 0xE2, CHR 0x80, CHR 0xA8], [CHR 0xE2, CHR 0x80, CHR 0xA9],
      [CHR 0xE2, CHR 0x80, CHR 0xAF],
      [CHR 0xE2, CHR 0x81, CHR 0x9F],
      [CHR 0xE3, CHR 0x80, CHR 0x80],
      [CHR 0xEF, CHR 0xBB, CHR 0xBF]]"

text \<open>
  \<open>strip ps n s\<close> removes from the front of \<open>s\<close> every leading occurrence of one of the
  byte sequences \<open>ps\<close>; \<open>n\<close> bounds the number of removals, and the length of \<open>s\<close> is
  always enough, as each removal takes at least one byte.
\<close>

fun strip :: "string list \<Rightarrow> nat \<Rightarrow> string \<Rightarrow> string" where
  "strip ps 0 s = s"
| "strip ps (Suc n) s =
     (case filter (\<lambda>p. p \<noteq> [] \<and> startsWith s p) ps of
        [] \<Rightarrow> s
      | p # _ \<Rightarrow> strip ps n (drop (length p) s))"

text \<open>White space stripped from both ends; the end is stripped on the reversed bytes.\<close>

definition trim :: "string \<Rightarrow> string" where
  "trim s =
     (let t = strip white_space (length s) s
      in rev (strip (map rev white_space) (length t) (rev t)))"

definition digit_value :: "nat \<Rightarrow> char \<Rightarrow> nat option" where
  "digit_value base c =
     (let n = (of_char c :: nat);
          d = (if 48 \<le> n \<and> n \<le> 57 then Some (n - 48)
               else if 97 \<le> n \<and> n \<le> 102 then Some (n - 87)
               else if 65 \<le> n \<and> n \<le> 70 then Some (n - 55)
               else None)
      in case d of
           None \<Rightarrow> None
         | Some v \<Rightarrow> if v < base then Some v else None)"

definition is_digit :: "char \<Rightarrow> bool" where
  "is_digit c = (digit_value 10 c \<noteq> None)"

fun number_of_digits :: "nat \<Rightarrow> string \<Rightarrow> nat \<Rightarrow> nat option" where
  "number_of_digits base [] acc = Some acc"
| "number_of_digits base (c # cs) acc =
     (case digit_value base c of
        None \<Rightarrow> None
      | Some d \<Rightarrow> number_of_digits base cs (acc * base + d))"

text \<open>A hexadecimal, binary or octal integer literal without sign: its exact value.\<close>

definition parse_radix :: "string \<Rightarrow> nat option" where
  "parse_radix t =
     (case t of
        z # p # ds \<Rightarrow>
          if z = CHR ''0'' \<and> ds \<noteq> [] then
            (if p = CHR ''x'' \<or> p = CHR ''X'' then number_of_digits 16 ds 0
             else if p = CHR ''b'' \<or> p = CHR ''B'' then number_of_digits 2 ds 0
             else if p = CHR ''o'' \<or> p = CHR ''O'' then number_of_digits 8 ds 0
             else None)
          else None
      | _ \<Rightarrow> None)"

definition parse_exponent :: "string \<Rightarrow> int option" where
  "parse_exponent r =
     (case r of
        [] \<Rightarrow> Some 0
      | e # r1 \<Rightarrow>
          if e = CHR ''e'' \<or> e = CHR ''E'' then
            (let neg = (r1 \<noteq> [] \<and> hd r1 = CHR ''-'');
                 ds = (if r1 \<noteq> [] \<and> (hd r1 = CHR ''-'' \<or> hd r1 = CHR ''+'') then tl r1 else r1)
             in if ds = [] then None
                else (case number_of_digits 10 ds 0 of
                        None \<Rightarrow> None
                      | Some n \<Rightarrow> Some (if neg then - int n else int n)))
          else None)"

text \<open>An unsigned decimal literal with optional fraction and exponent: its exact value.\<close>

definition parse_decimal :: "string \<Rightarrow> real option" where
  "parse_decimal u =
     (let ip = takeWhile is_digit u;
          r1 = dropWhile is_digit u;
          has_dot = (r1 \<noteq> [] \<and> hd r1 = CHR ''.'');
          fp = (if has_dot then takeWhile is_digit (tl r1) else []);
          r2 = (if has_dot then dropWhile is_digit (tl r1) else r1)
      in if ip = [] \<and> fp = [] then None
         else (case (number_of_digits 10 ip 0, number_of_digits 10 fp 0, parse_exponent r2) of
                 (Some i, Some f, Some e) \<Rightarrow>
                   Some ((real i + real f / 10 ^ length fp)
                         * (if 0 \<le> e then 10 ^ nat e else 1 / 10 ^ nat (- e)))
               | _ \<Rightarrow> None))"

text \<open>
  The language's conversion of a string to a number (\<^verbatim>\<open>StringToNumber\<close>): white space
  is trimmed; the empty string is 0; then a hexadecimal, binary or octal integer without
  sign, or an optional sign followed by \<^verbatim>\<open>Infinity\<close> or a decimal literal; anything
  else is \<^verbatim>\<open>NaN\<close>. The exact value of the literal is rounded to a double.
\<close>

definition StringToNumber :: "string \<Rightarrow> jsnum" where
  "StringToNumber s =
     (let t = trim s
      in if t = [] then Fin 0
         else (case parse_radix t of
                 Some n \<Rightarrow> round64 (real n)
               | None \<Rightarrow>
                   (let neg = (hd t = CHR ''-'');
                        u = (if hd t = CHR ''-'' \<or> hd t = CHR ''+'' then tl t else t)
                    in if u = ''Infinity'' then (if neg then NegInf else PosInf)
                       else (case parse_decimal u of
                               None \<Rightarrow> NaN
                             | Some x \<Rightarrow> round64 (if neg then - x else x)))))"

text \<open>
  The conversion of a value to a number; \<open>None\<close> when it throws.
\<close>

fun ToNumber :: "jsval \<Rightarrow> jsnum option" where
  "ToNumber JUndefined = Some NaN"
| "ToNumber JNull = Some (Fin 0)"
| "ToNumber (JBool b) = Some (Fin (if b then 1 else 0))"
| "ToNumber (JNum x) = Some (round64 x)"
| "ToNumber (JInfinity b) = Some (if b then PosInf else NegInf)"
| "ToNumber JNaN = Some NaN"
| "ToNumber (JStr s) = Some (StringToNumber s)"
| "ToNumber (JObject r) = r"

text \<open>
  The global \<^verbatim>\<open>isNaN(v)\<close> converts its argument to a number first; \<open>None\<close> when the
  conversion throws.
\<close>

definition isNaN :: "jsval \<Rightarrow> bool option" where
  "isNaN v = map_option (\<lambda>n. n = NaN) (ToNumber v)"

text \<open>
  \<^verbatim>\<open>v > 0\<close>: the other operand is a number, so \<open>v\<close> is converted to a number; \<open>None\<close>
  when the conversion throws.
\<close>

definition gt_zero :: "jsval \<Rightarrow> bool option" where
  "gt_zero v = map_option positive (ToNumber v)"

text \<open>
  The path fields \<^verbatim>\<open>masterFile\<close> and \<^verbatim>\<open>slaveFile\<close> of the body are file locators:
  a string, or \<open>None\<close> when the field is missing. \<^verbatim>\<open>!p\<close> holds of a missing field
  and of the empty string.
\<close>

definition falsy_path :: "string option \<Rightarrow> bool" where
  "falsy_path p = (case p of None \<Rightarrow> True | Some s \<Rightarrow> s = [])"

section \<open>The remote players and the controller's run\<close>

datatype participant = Master | Slave

text \<open>
  The one-shot commands the handler sends with \<^verbatim>\<open>sendCommand\<close>, by their
  \<^verbatim>\<open>command=\<close> name and the value interpolated into the URL. \<^verbatim>\<open>Seek\<close> and
  \<^verbatim>\<open>Rate\<close> carry the value before it is printed into the URL; \<^verbatim>\<open>InEnqueue\<close> and
  \<^verbatim>\<open>InPlay\<close> carry the path before \<^verbatim>\<open>encodeURIComponent\<close>.
\<close>

datatype vlc_command =
    InEnqueue string
  | InPlay string
  | PlNext
  | PlPlay
  | PlPause
  | PlStop
  | Seek jsval
  | Rate jsval
  | ToggleFullscreen

text \<open>
  What a run of the handler does to the outside, in order: a command sent to a
  participant, or a \<^verbatim>\<open>setTimeout\<close> delay in milliseconds. Status queries and log lines
  change nothing outside and are not recorded.
\<close>

datatype event = Send participant vlc_command | Wait nat

text \<open>
  The status document of a player, as far as the handler reads it. \<open>time\<close> is
  \<open>None\<close> when \<^verbatim>\<open>typeof status.time\<close> is \<^verbatim>\<open>"undefined"\<close>, and a number otherwise;
  \<open>state\<close> and \<open>fullscreen\<close> are \<open>JUndefined\<close> when the document lacks them.
\<close>

record vlc_status =
  state :: jsval
  time :: "real option"
  fullscreen :: jsval

text \<open>
  The outside of one run. \<^verbatim>\<open>getVLCStatus\<close> returns the parsed document, or
  \<^verbatim>\<open>null\<close> (\<open>None\<close>) when the request or the parsing fails; the players answer the
  \<open>k\<close>-th query of a run as \<open>master_replies k\<close> and \<open>slave_replies k\<close> say, so any
  behaviour of the players is some pair of reply functions. \<open>write_fault\<close> is
  \<open>Some (msg, left)\<close> when \<^verbatim>\<open>fs.writeFileSync\<close> throws an error with the message
  \<open>msg\<close> and leaves the file as \<open>left\<close>: as it was when the file could not be
  opened, empty or holding part of the text when the failure comes after the open.
  \<open>readback_fault\<close> is \<open>Some msg\<close> when the \<^verbatim>\<open>readPaths()\<close> that follows the write
  inside the same \<^verbatim>\<open>try\<close> throws an error with that message. The other reads of the
  file are taken to succeed.
\<close>

record world =
  master_replies :: "nat \<Rightarrow> vlc_status option"
  slave_replies :: "nat \<Rightarrow> vlc_status option"
  write_fault :: "(string \<times> string option) option"
  readback_fault :: "string option"

text \<open>
  The state threaded through a run: how many status queries each player has answered,
  the events so far, and the content of \<^verbatim>\<open>paths.txt\<close>.
\<close>

record sys =
  master_polls :: nat
  slave_polls :: nat
  trace :: "event list"
  paths_file :: "string option"

definition getVLCStatus :: "world \<Rightarrow> participant \<Rightarrow> sys \<Rightarrow> vlc_status option \<times> sys" where
  "getVLCStatus w p st =
     (case p of
        Master \<Rightarrow> (master_replies w (master_polls st), st\<lparr>master_polls := Suc (master_polls st)\<rparr>)
      | Slave \<Rightarrow> (slave_replies w (slave_polls st), st\<lparr>slave_polls := Suc (slave_polls st)\<rparr>))"

text \<open>
  \<^verbatim>\<open>sendCommand\<close> catches every transport error and the handler never reads its
  result: a command is one event of the trace.
\<close>

definition sendCommand :: "participant \<Rightarrow> vlc_command \<Rightarrow> sys \<Rightarrow> sys" where
  "sendCommand p c st = st\<lparr>trace := trace st @ [Send p c]\<rparr>"

text \<open>\<^verbatim>\<open>await new Promise((resolve) => setTimeout(resolve, ms))\<close>.\<close>

definition sleep :: "nat \<Rightarrow> sys \<Rightarrow> sys" where
  "sleep ms st = st\<lparr>trace := trace st @ [Wait ms]\<rparr>"

text \<open>
  The success texts of the handler, by their template and the values interpolated into
  it; the error texts are constant strings and are kept as they are.
  \<^item> \<open>PlayResumed m s\<close>: "Playback resumed from paused position. Fullscreen: ..."
  \<^item> \<open>PlayStarted m s\<close>: "Playback started in sync after 1-second buffer. Rate set to 1.0x. Fullscreen: ..."
  \<^item> \<open>PausedAt t\<close>: "Both players synced to t sec and paused (no toggling)."
  \<^item> \<open>Stopped\<close>: "Both players stopped."
  \<^item> \<open>SeekSent\<close>: "Seek command sent."
  \<^item> \<open>SkippedForward\<close>, \<open>SkippedBackward\<close>: "Skipped forward 10 seconds.", "Skipped backward 10 seconds."
  \<^item> \<open>WakeUpCompleted\<close>: "Wake-up completed: media loaded, rate set, playback started smoothly."
  \<^item> \<open>FullscreenOn m s\<close>: "Both players playing. Fullscreen: Master - already/now ON, Slave - already/now ON."
  \<^item> \<open>SyncComplete t\<close>: "Sync complete. Both players are now playing at ~t sec."
  \<^item> \<open>SpeedSet v\<close>: "Speed set to vx on both players."
  \<^item> \<open>SpeedReset\<close>: "Speed reset to 1.0x on both players."
  \<^item> \<open>PathsSaved\<close>: "Paths saved successfully."
  The booleans say whether the player was already in fullscreen.
\<close>

datatype message =
    PlayResumed bool bool
  | PlayStarted bool bool
  | PausedAt real
  | Stopped
  | SeekSent
  | SkippedForward
  | SkippedBackward
  | WakeUpCompleted
  | FullscreenOn bool bool
  | SyncComplete jsval
  | SpeedSet jsval
  | SpeedReset
  | PathsSaved

text \<open>The body of a response: \<^verbatim>\<open>{ message }\<close> or \<^verbatim>\<open>{ error }\<close>.\<close>

datatype response = Message message | Error string

text \<open>
  How a run of the handler ends: with one \<^verbatim>\<open>res.json(...)\<close>, or with an exception
  nothing catches (reading a property of \<^verbatim>\<open>null\<close>), in which case no response is
  sent.
\<close>

datatype outcome = Json response | Uncaught

text \<open>The fields of \<^verbatim>\<open>req.body\<close> the handler reads.\<close>

record body =
  command :: jsval
  masterFile :: "string option"
  slaveFile :: "string option"
  seekValue :: jsval
  speed :: jsval

text \<open>\<^verbatim>\<open>status.time || 0\<close>: a missing time, and the time 0, give 0.\<close>

definition time_or_0 :: "vlc_status \<Rightarrow> real" where
  "time_or_0 s = (case time s of None \<Rightarrow> 0 | Some t \<Rightarrow> if t = 0 then 0 else t)"

text \<open>\<^verbatim>\<open>status && typeof status.time !== "undefined"\<close>.\<close>

definition has_time :: "vlc_status option \<Rightarrow> bool" where
  "has_time status = (case status of None \<Rightarrow> False | Some s \<Rightarrow> time s \<noteq> None)"

text \<open>
  \<^verbatim>\<open>status?.state === "paused"\<close>: on \<^verbatim>\<open>null\<close> the optional chain gives
  \<^verbatim>\<open>undefined\<close>, which is not \<^verbatim>\<open>"paused"\<close>.
\<close>

definition is_paused :: "vlc_status option \<Rightarrow> bool" where
  "is_paused status = (case status of None \<Rightarrow> False | Some s \<Rightarrow> state s = JStr ''paused'')"

section \<open>The cases of the switch in the /control handler\<close>

text \<open>
  Each case takes the state of the run and returns how the run ends, with the state at
  that point. A case that reaches its \<^verbatim>\<open>break\<close> ends with the handler's last line,
  \<^verbatim>\<open>res.json({ message: responseMessage })\<close>; a \<^verbatim>\<open>return res.json(...)\<close> inside a
  case ends the run at once.
\<close>

text \<open>
  \<^verbatim>\<open>case "play"\<close>. The paths are read again from the file. After the second pair of
  queries, \<^verbatim>\<open>updatedStatusMaster.fullscreen\<close> is read without a test for
  \<^verbatim>\<open>null\<close>.
\<close>

definition case_play :: "world \<Rightarrow> sys \<Rightarrow> outcome \<times> sys" where
  "case_play w st0 =
     (let (masterFile, slaveFile) = readPaths (paths_file st0)
      in if masterFile = [] \<or> slaveFile = []
         then (Json (Error ''File paths not found. Save them first.''), st0)
         else
          (let (statusMaster, st1) = getVLCStatus w Master st0;
               (statusSlave, st2) = getVLCStatus w Slave st1;
               masterPaused = is_paused statusMaster;
               slavePaused = is_paused statusSlave;
               resumingFromPause = (masterPaused \<or> slavePaused);
               st3 = (if resumingFromPause then st2
                      else
                       (let a1 = sendCommand Master (InEnqueue masterFile) st2;
                            a2 = sendCommand Slave (InEnqueue slaveFile) a1;
                            a3 = sendCommand Master PlNext a2;
                            a4 = sendCommand Slave PlNext a3;
                            a5 = sendCommand Master (Rate (JNum 1)) a4;
                            a6 = sendCommand Slave (Rate (JNum 1)) a5;
                            a7 = sendCommand Master (Seek (JNum 0)) a6;
                            a8 = sendCommand Slave (Seek (JNum 0)) a7
                        in sleep 1000 a8));
               st4 = sendCommand Master PlPlay st3;
               st5 = sendCommand Slave PlPlay st4;
               st6 = sleep 300 st5;
               (updatedStatusMaster, st7) = getVLCStatus w Master st6;
               (updatedStatusSlave, st8) = getVLCStatus w Slave st7
           in case updatedStatusMaster of
                None \<Rightarrow> (Uncaught, st8)
              | Some um \<Rightarrow>
                 (case updatedStatusSlave of
                    None \<Rightarrow> (Uncaught, st8)
                  | Some us \<Rightarrow>
                     (let fullscreenMaster = (fullscreen um = JBool True);
                          fullscreenSlave = (fullscreen us = JBool True);
                          st9 = (if fullscreenMaster then st8
                                 else sendCommand Master ToggleFullscreen st8);
                          st10 = (if fullscreenSlave then st9
                                  else sendCommand Slave ToggleFullscreen st9)
                      in (Json (Message (if resumingFromPause
                                         then PlayResumed fullscreenMaster fullscreenSlave
                                         else PlayStarted fullscreenMaster fullscreenSlave)),
                          st10)))))"

text \<open>\<^verbatim>\<open>case "pause"\<close>.\<close>

definition case_pause :: "world \<Rightarrow> sys \<Rightarrow> outcome \<times> sys" where
  "case_pause w st0 =
     (let (statusMaster, st1) = getVLCStatus w Master st0;
          (statusSlave, st2) = getVLCStatus w Slave st1
      in case statusMaster of
           None \<Rightarrow> (Json (Error ''Could not retrieve VLC status.''), st2)
         | Some sm \<Rightarrow>
            (case statusSlave of
               None \<Rightarrow> (Json (Error ''Could not retrieve VLC status.''), st2)
             | Some ss \<Rightarrow>
                (let isMasterPlaying = (state sm = JStr ''playing'');
                     isSlavePlaying = (state ss = JStr ''playing'');
                     masterTime = time_or_0 sm;
                     slaveTime = time_or_0 ss;
                     maxTime = max masterTime slaveTime;
                     st3 = sendCommand Master (Seek (JNum maxTime)) st2;
                     st4 = sendCommand Slave (Seek (JNum maxTime)) st3;
                     st5 = (if isMasterPlaying then sendCommand Master PlPause st4 else st4);
                     st6 = (if isSlavePlaying then sendCommand Slave PlPause st5 else st5)
                 in (Json (Message (PausedAt maxTime)), st6))))"

text \<open>\<^verbatim>\<open>case "stop"\<close>.\<close>

definition case_stop :: "sys \<Rightarrow> outcome \<times> sys" where
  "case_stop st0 =
     (let st1 = sendCommand Master PlStop st0;
          st2 = sendCommand Slave PlStop st1
      in (Json (Message Stopped), st2))"

text \<open>
  \<^verbatim>\<open>case "seek"\<close>: the test is \<^verbatim>\<open>seekValue && !isNaN(seekValue)\<close>. A falsy value
  is not converted; a conversion that throws is caught by nothing.
\<close>

definition case_seek :: "body \<Rightarrow> sys \<Rightarrow> outcome \<times> sys" where
  "case_seek req st0 =
     (if truthy (seekValue req)
      then (case isNaN (seekValue req) of
              None \<Rightarrow> (Uncaught, st0)
            | Some nan \<Rightarrow>
                if \<not> nan
                then (let st1 = sendCommand Master (Seek (seekValue req)) st0;
                          st2 = sendCommand Slave (Seek (seekValue req)) st1
                      in (Json (Message SeekSent), st2))
                else (Json (Error ''Invalid or missing seek value.''), st0))
      else (Json (Error ''Invalid or missing seek value.''), st0))"

text \<open>\<^verbatim>\<open>case "skip_forward"\<close>.\<close>

definition case_skip_forward :: "world \<Rightarrow> sys \<Rightarrow> outcome \<times> sys" where
  "case_skip_forward w st0 =
     (let (statusMaster, st1) = getVLCStatus w Master st0;
          (statusSlave, st2) = getVLCStatus w Slave st1
      in case statusMaster of
           None \<Rightarrow> (Json (Error ''Could not retrieve VLC status.''), st2)
         | Some sm \<Rightarrow>
            (case statusSlave of
               None \<Rightarrow> (Json (Error ''Could not retrieve VLC status.''), st2)
             | Some ss \<Rightarrow>
                (let masterTime = js_add (round64 (time_or_0 sm)) (Fin 10);
                     slaveTime = js_add (round64 (time_or_0 ss)) (Fin 10);
                     st3 = sendCommand Master (Seek (num_value masterTime)) st2;
                     st4 = sendCommand Slave (Seek (num_value slaveTime)) st3
                 in (Json (Message SkippedForward), st4))))"

text \<open>\<^verbatim>\<open>case "skip_backward"\<close>.\<close>

definition case_skip_backward :: "world \<Rightarrow> sys \<Rightarrow> outcome \<times> sys" where
  "case_skip_backward w st0 =
     (let (statusMaster, st1) = getVLCStatus w Master st0;
          (statusSlave, st2) = getVLCStatus w Slave st1
      in case statusMaster of
           None \<Rightarrow> (Json (Error ''Could not retrieve VLC status.''), st2)
         | Some sm \<Rightarrow>
            (case statusSlave of
               None \<Rightarrow> (Json (Error ''Could not retrieve VLC status.''), st2)
             | Some ss \<Rightarrow>
                (let masterTime = js_max (Fin 0) (js_sub (round64 (time_or_0 sm)) (Fin 10));
                     slaveTime = js_max (Fin 0) (js_sub (round64 (time_or_0 ss)) (Fin 10));
                     st3 = sendCommand Master (Seek (num_value masterTime)) st2;
                     st4 = sendCommand Slave (Seek (num_value slaveTime)) st3
                 in (Json (Message SkippedBackward), st4))))"

text \<open>
  \<^verbatim>\<open>case "wakeUp"\<close>, on the handler's own \<^verbatim>\<open>masterFile\<close> and \<^verbatim>\<open>slaveFile\<close> (the
  body's, completed from the file), here \<open>mfile\<close> and \<open>sfile\<close>. \<^verbatim>\<open>!statusMaster.fullscreen\<close> tests truthiness and
  is read without a test for \<^verbatim>\<open>null\<close>.
\<close>

definition case_wakeUp :: "world \<Rightarrow> string option \<Rightarrow> string option \<Rightarrow> sys \<Rightarrow> outcome \<times> sys" where
  "case_wakeUp w mfile sfile st0 =
     (case (mfile, sfile) of
        (Some mf, Some sf) \<Rightarrow>
          if mf = [] \<or> sf = []
          then (Json (Error ''File paths not found. Save them first.''), st0)
          else
           (let a1 = sendCommand Master (InEnqueue mf) st0;
                a2 = sendCommand Slave (InEnqueue sf) a1;
                a3 = sleep 300 a2;
                a4 = sendCommand Master PlNext a3;
                a5 = sendCommand Slave PlNext a4;
                a6 = sendCommand Master (Rate (JNum 1)) a5;
                a7 = sendCommand Slave (Rate (JNum 1)) a6;
                a8 = sendCommand Master (Seek (JNum 0)) a7;
                a9 = sendCommand Slave (Seek (JNum 0)) a8;
                a10 = sleep 1000 a9;
                a11 = sendCommand Master PlPlay a10;
                a12 = sendCommand Slave PlPlay a11;
                (statusMaster, a13) = getVLCStatus w Master a12;
                (statusSlave, a14) = getVLCStatus w Slave a13
            in case statusMaster of
                 None \<Rightarrow> (Uncaught, a14)
               | Some sm \<Rightarrow>
                  (let a15 = (if truthy (fullscreen sm) then a14
                              else sendCommand Master ToggleFullscreen a14)
                   in case statusSlave of
                        None \<Rightarrow> (Uncaught, a15)
                      | Some ss \<Rightarrow>
                         (let a16 = (if truthy (fullscreen ss) then a15
                                     else sendCommand Slave ToggleFullscreen a15)
                          in (Json (Message WakeUpCompleted), a16))))
      | _ \<Rightarrow> (Json (Error ''File paths not found. Save them first.''), st0))"

text \<open>
  \<^verbatim>\<open>case "fullscreen"\<close>: both \<^verbatim>\<open>.fullscreen\<close> reads come before the first command,
  and neither status is tested for \<^verbatim>\<open>null\<close>.
\<close>

definition case_fullscreen :: "world \<Rightarrow> sys \<Rightarrow> outcome \<times> sys" where
  "case_fullscreen w st0 =
     (let st1 = sleep 300 st0;
          (statusMaster, st2) = getVLCStatus w Master st1;
          (statusSlave, st3) = getVLCStatus w Slave st2
      in case statusMaster of
           None \<Rightarrow> (Uncaught, st3)
         | Some sm \<Rightarrow>
            (case statusSlave of
               None \<Rightarrow> (Uncaught, st3)
             | Some ss \<Rightarrow>
                (let fullscreenMaster = (fullscreen sm = JBool True);
                     fullscreenSlave = (fullscreen ss = JBool True);
                     st4 = (if fullscreenMaster then st3
                            else sendCommand Master ToggleFullscreen st3);
                     st5 = (if fullscreenSlave then st4
                            else sendCommand Slave ToggleFullscreen st4)
                 in (Json (Message (FullscreenOn fullscreenMaster fullscreenSlave)), st5))))"

text \<open>
  \<^verbatim>\<open>case "setSpeed"\<close>: the test is \<^verbatim>\<open>speed && !isNaN(speed) && speed > 0\<close>, read
  from the left: a falsy value is not converted, a value that is \<^verbatim>\<open>NaN\<close> is not
  compared, and a conversion that throws is caught by nothing.
\<close>

definition case_setSpeed :: "body \<Rightarrow> sys \<Rightarrow> outcome \<times> sys" where
  "case_setSpeed req st0 =
     (if truthy (speed req)
      then (case isNaN (speed req) of
              None \<Rightarrow> (Uncaught, st0)
            | Some nan \<Rightarrow>
                if \<not> nan
                then (case gt_zero (speed req) of
                        None \<Rightarrow> (Uncaught, st0)
                      | Some gt \<Rightarrow>
                          if gt
                          then (let st1 = sendCommand Master (Rate (speed req)) st0;
                                    st2 = sendCommand Slave (Rate (speed req)) st1;
                                    st3 = sleep 200 st2
                                in (Json (Message (SpeedSet (speed req))), st3))
                          else (Json (Error ''Invalid speed value. Must be a positive number.''),
                                st0))
                else (Json (Error ''Invalid speed value. Must be a positive number.''), st0))
      else (Json (Error ''Invalid speed value. Must be a positive number.''), st0))"

text \<open>\<^verbatim>\<open>case "resetSpeed"\<close>.\<close>

definition case_resetSpeed :: "sys \<Rightarrow> outcome \<times> sys" where
  "case_resetSpeed st0 =
     (let st1 = sendCommand Master (Rate (JNum 1)) st0;
          st2 = sendCommand Slave (Rate (JNum 1)) st1;
          st3 = sleep 200 st2
      in (Json (Message SpeedReset), st3))"

text \<open>
  \<^verbatim>\<open>savePaths(masterFile, slaveFile)\<close>: the whole file is overwritten, unless
  \<^verbatim>\<open>fs.writeFileSync\<close> throws; then the error's message is returned on the left,
  with the file as the failed write left it.
\<close>

definition savePaths ::
  "world \<Rightarrow> string \<Rightarrow> string \<Rightarrow> sys \<Rightarrow> (string \<times> sys) + sys" where
  "savePaths w mfile sfile st =
     (case write_fault w of
        Some (msg, left) \<Rightarrow> Inl (msg, st\<lparr>paths_file := left\<rparr>)
      | None \<Rightarrow> Inr (st\<lparr>paths_file := Some (paths_text mfile sfile)\<rparr>))"

text \<open>
  \<^verbatim>\<open>case "savePaths"\<close>, on the handler's own \<^verbatim>\<open>masterFile\<close> and \<^verbatim>\<open>slaveFile\<close>
  (\<open>mfile\<close> and \<open>sfile\<close>). The test is \<^verbatim>\<open>masterFile && slaveFile\<close>. Inside the
  \<^verbatim>\<open>try\<close> come the write and then a read-back of the file, whose result only feeds
  the log; the \<^verbatim>\<open>catch\<close> turns a failure of either into an error response, after the
  write has done to the file what it did.
\<close>

definition case_savePaths :: "world \<Rightarrow> string option \<Rightarrow> string option \<Rightarrow> sys \<Rightarrow> outcome \<times> sys" where
  "case_savePaths w mfile sfile st0 =
     (case (mfile, sfile) of
        (Some mf, Some sf) \<Rightarrow>
          if mf = [] \<or> sf = []
          then (Json (Error ''Missing file paths.''), st0)
          else (case savePaths w mf sf st0 of
                  Inl (msg, st1) \<Rightarrow> (Json (Error (''Failed to save paths: '' @ msg)), st1)
                | Inr st1 \<Rightarrow>
                   (case readback_fault w of
                      Some msg \<Rightarrow> (Json (Error (''Failed to save paths: '' @ msg)), st1)
                    | None \<Rightarrow> (Json (Message PathsSaved), st1)))
      | _ \<Rightarrow> (Json (Error ''Missing file paths.''), st0))"

subsection \<open>The sync case\<close>

text \<open>
  The retry loop of \<^verbatim>\<open>case "sync"\<close>: \<open>n\<close> is the number of attempts left
  (\<^verbatim>\<open>retries - i\<close>), \<open>prev\<close> the statuses of the attempt before. An attempt that leaves
  either player without a time is followed by a delay of 200 ms, also the last one.
\<close>

fun poll_both ::
  "world \<Rightarrow> nat \<Rightarrow> vlc_status option \<times> vlc_status option \<Rightarrow> sys
    \<Rightarrow> (vlc_status option \<times> vlc_status option) \<times> sys" where
  "poll_both w 0 prev st = (prev, st)"
| "poll_both w (Suc n) prev st =
     (let (statusMaster, st1) = getVLCStatus w Master st;
          (statusSlave, st2) = getVLCStatus w Slave st1
      in if has_time statusMaster \<and> has_time statusSlave
         then ((statusMaster, statusSlave), st2)
         else poll_both w n (statusMaster, statusSlave) (sleep 200 st2))"

text \<open>
  "Reload file if not in 'playing' state": a player whose state is not
  \<^verbatim>\<open>"playing"\<close> is sent its file again and queried again after 350 ms; the new
  status is not tested. The result is \<open>Inl\<close> when the run ends here, \<open>Inr\<close> with the
  two statuses the comparison will read otherwise.
\<close>

definition sync_reload ::
  "world \<Rightarrow> string \<Rightarrow> string \<Rightarrow> vlc_status option \<Rightarrow> vlc_status option \<Rightarrow> sys
    \<Rightarrow> (outcome \<times> sys) + ((vlc_status option \<times> vlc_status option) \<times> sys)" where
  "sync_reload w mfile sfile statusMaster statusSlave st0 =
     (case statusMaster of
        None \<Rightarrow> Inl (Uncaught, st0)
      | Some sm \<Rightarrow>
         (let (statusMaster', st1) =
                (if state sm \<noteq> JStr ''playing''
                 then getVLCStatus w Master (sleep 350 (sendCommand Master (InPlay mfile) st0))
                 else (Some sm, st0))
          in case statusSlave of
               None \<Rightarrow> Inl (Uncaught, st1)
             | Some ss \<Rightarrow>
                (let (statusSlave', st2) =
                       (if state ss \<noteq> JStr ''playing''
                        then getVLCStatus w Slave (sleep 350 (sendCommand Slave (InPlay sfile) st1))
                        else (Some ss, st1))
                 in Inr ((statusMaster', statusSlave'), st2))))"

text \<open>
  The first part of \<^verbatim>\<open>case "sync"\<close>, up to the comparison of the times: three
  attempts to get both statuses, the recovery of a single player that gave none, and the
  reload of players that are not playing.
\<close>

definition sync_acquire ::
  "world \<Rightarrow> string \<Rightarrow> string \<Rightarrow> sys
    \<Rightarrow> (outcome \<times> sys) + ((vlc_status option \<times> vlc_status option) \<times> sys)" where
  "sync_acquire w mfile sfile st0 =
     (let ((statusMaster, statusSlave), st1) = poll_both w 3 (None, None) st0;
          masterOk = has_time statusMaster;
          slaveOk = has_time statusSlave
      in if \<not> masterOk \<and> \<not> slaveOk
         then Inl (Json (Error ''Both VLC systems are unreachable.''), st1)
         else if \<not> masterOk then
           (let st2 = sendCommand Master (InPlay mfile) st1;
                st3 = sleep 350 st2;
                (statusMaster', st4) = getVLCStatus w Master st3
            in if \<not> has_time statusMaster'
               then Inl (Json (Error ''Master VLC is unreachable or failed to reload.''), st4)
               else sync_reload w mfile sfile statusMaster' statusSlave st4)
         else if \<not> slaveOk then
           (let st2 = sendCommand Slave (InPlay sfile) st1;
                st3 = sleep 350 st2;
                (statusSlave', st4) = getVLCStatus w Slave st3
            in if \<not> has_time statusSlave'
               then Inl (Json (Error ''Slave VLC is unreachable or failed to reload.''), st4)
               else sync_reload w mfile sfile statusMaster statusSlave' st4)
         else sync_reload w mfile sfile statusMaster statusSlave st1)"

definition threshold :: real where
  "threshold = 0.5"

text \<open>
  "Compare timestamps and sync only the one behind". \<^verbatim>\<open>statusMaster.time\<close> is read
  without a test for \<^verbatim>\<open>null\<close>. \<^verbatim>\<open>parseFloat\<close> of a number is that number and of
  \<^verbatim>\<open>undefined\<close> is \<^verbatim>\<open>NaN\<close>, and a comparison with \<^verbatim>\<open>NaN\<close> is false. The
  difference and the sums are those of the doubles. When the
  difference is above the threshold the case returns its own response (the URL of the
  master's seek ends in a blank after the value; the command is recorded by its value,
  \<^verbatim>\<open>slaveTime + 1\<close>). Otherwise the
  case body ends with neither \<^verbatim>\<open>break\<close> nor \<^verbatim>\<open>return\<close>, and the run goes on in
  the next case of the switch, \<^verbatim>\<open>"setSpeed"\<close>.
\<close>

definition sync_compare ::
  "body \<Rightarrow> vlc_status option \<Rightarrow> vlc_status option \<Rightarrow> sys \<Rightarrow> outcome \<times> sys" where
  "sync_compare req statusMaster statusSlave st0 =
     (case statusMaster of
        None \<Rightarrow> (Uncaught, st0)
      | Some sm \<Rightarrow>
         (case statusSlave of
            None \<Rightarrow> (Uncaught, st0)
          | Some ss \<Rightarrow>
             (case (time sm, time ss) of
                (Some a, Some b) \<Rightarrow>
                  (let masterTime = round64 a;
                       slaveTime = round64 b
                   in if abs_exceeds (js_sub masterTime slaveTime) threshold
                      then
                       (let st1 = (if js_less masterTime slaveTime
                                   then sendCommand Master
                                          (Seek (num_value (js_add slaveTime (Fin 1)))) st0
                                   else if js_less slaveTime masterTime
                                   then sendCommand Slave
                                          (Seek (num_value (js_add masterTime (Fin 1)))) st0
                                   else st0);
                            st2 = sendCommand Master PlPlay st1;
                            st3 = sendCommand Slave PlPlay st2;
                            finalTime = js_add (js_max masterTime slaveTime) (Fin 1)
                        in (Json (Message (SyncComplete (num_value finalTime))), st3))
                      else case_setSpeed req st0)
              | _ \<Rightarrow> case_setSpeed req st0)))"

text \<open>\<^verbatim>\<open>case "sync"\<close>. The paths are read again from the file.\<close>

definition case_sync :: "world \<Rightarrow> body \<Rightarrow> sys \<Rightarrow> outcome \<times> sys" where
  "case_sync w req st0 =
     (let (mfile, sfile) = readPaths (paths_file st0)
      in if mfile = [] \<or> sfile = []
         then (Json (Error ''File paths not found. Save them first.''), st0)
         else (case sync_acquire w mfile sfile st0 of
                 Inl ended \<Rightarrow> ended
               | Inr ((statusMaster, statusSlave), st1) \<Rightarrow>
                   sync_compare req statusMaster statusSlave st1))"

section \<open>The /control handler\<close>

text \<open>The \<^verbatim>\<open>switch (command)\<close>, which compares with \<^verbatim>\<open>===\<close>.\<close>

definition dispatch ::
  "world \<Rightarrow> body \<Rightarrow> string option \<Rightarrow> string option \<Rightarrow> sys \<Rightarrow> outcome \<times> sys" where
  "dispatch w req mfile sfile st =
     (if command req = JStr ''play'' then case_play w st
      else if command req = JStr ''pause'' then case_pause w st
      else if command req = JStr ''stop'' then case_stop st
      else if command req = JStr ''seek'' then case_seek req st
      else if command req = JStr ''skip_forward'' then case_skip_forward w st
      else if command req = JStr ''skip_backward'' then case_skip_backward w st
      else if command req = JStr ''wakeUp'' then case_wakeUp w mfile sfile st
      else if command req = JStr ''fullscreen'' then case_fullscreen w st
      else if command req = JStr ''sync'' then case_sync w req st
      else if command req = JStr ''setSpeed'' then case_setSpeed req st
      else if command req = JStr ''resetSpeed'' then case_resetSpeed st
      else if command req = JStr ''savePaths'' then case_savePaths w mfile sfile st
      else (Json (Error ''Invalid command.''), st))"

text \<open>
  The handler of \<^verbatim>\<open>app.post("/control", ...)\<close>. A missing or empty
  \<^verbatim>\<open>slaveFile\<close> falls back to \<^verbatim>\<open>masterFile\<close> ("fallback for legacy"). For every
  command but \<^verbatim>\<open>savePaths\<close>, paths the body lacks are taken from the file, and the
  request is refused when one is still missing.
\<close>

definition control :: "world \<Rightarrow> body \<Rightarrow> sys \<Rightarrow> outcome \<times> sys" where
  "control w req st =
     (let mfile = masterFile req;
          sfile = (if falsy_path (slaveFile req) then masterFile req else slaveFile req)
      in if command req \<noteq> JStr ''savePaths''
         then
          (let paths = readPaths (paths_file st);
               mfile' = (if falsy_path mfile then Some (fst paths) else mfile);
               sfile' = (if falsy_path sfile then Some (snd paths) else sfile)
           in if falsy_path mfile' \<or> falsy_path sfile'
              then (Json (Error ''No file paths found. Please save file paths first.''), st)
              else dispatch w req mfile' sfile' st)
         else dispatch w req mfile sfile st)"

text \<open>The state at the start of a run, over the file as it is then.\<close>

definition start :: "string option \<Rightarrow> sys" where
  "start file = \<lparr>master_polls = 0, slave_polls = 0, trace = [], paths_file = file\<rparr>"

section \<open>Notions the properties are stated with\<close>

text \<open>
  The request gets past the path test of the handler: each of the two paths is given by
  the body (the slave's also by the body's \<^verbatim>\<open>masterFile\<close>, through the fallback) or by
  the file.
\<close>

definition selection_available :: "body \<Rightarrow> string option \<Rightarrow> bool" where
  "selection_available req file =
     ((if falsy_path (masterFile req) then fst (readPaths file) \<noteq> [] else True)
      \<and> (if falsy_path (slaveFile req) \<and> falsy_path (masterFile req)
         then snd (readPaths file) \<noteq> [] else True))"

text \<open>The seek commands among the events of a run.\<close>

fun is_seek :: "event \<Rightarrow> bool" where
  "is_seek (Send p (Seek v)) = True"
| "is_seek e = False"

text \<open>
  Concrete surroundings for the examples: a status document with a state and a time and
  fullscreen off, players that answer every query alike, a body with a command and
  nothing else, and a file holding two paths.
\<close>

definition player :: "string \<Rightarrow> real \<Rightarrow> vlc_status" where
  "player s t = \<lparr>state = JStr s, time = Some t, fullscreen = JBool False\<rparr>"

definition steady :: "vlc_status option \<Rightarrow> vlc_status option \<Rightarrow> world" where
  "steady m s = \<lparr>master_replies = (\<lambda>k. m), slave_replies = (\<lambda>k. s),
                 write_fault = None, readback_fault = None\<rparr>"

definition request :: "string \<Rightarrow> body" where
  "request c = \<lparr>command = JStr c, masterFile = None, slaveFile = None,
                 seekValue = JUndefined, speed = JUndefined\<rparr>"

definition saved :: "string option" where
  "saved = Some (paths_text ''a.mp4'' ''b.mp4'')"

section \<open>The Path Store round trip\<close>

lemma split_lines_no_LF:
  "LF \<notin> set xs \<Longrightarrow> split_lines xs = [xs]"
proof (induction xs)
  case Nil
  then show ?case by simp
next
  case (Cons c cs)
  then have "cs \<noteq> [] \<Longrightarrow> hd cs \<noteq> LF"
    by (cases cs) auto
  with Cons show ?case by auto
qed

lemma split_lines_append_LF:
  "LF \<notin> set xs \<Longrightarrow> CR \<notin> set xs \<Longrightarrow> split_lines (xs @ LF # ys) = xs # split_lines ys"
  by (induction xs) auto

lemma startsWith_append: "startsWith (p @ x) p"
  by (simp add: startsWith_def)

lemma replace_first_prefix: "replace_first p r (p @ x) = r @ x"
proof (cases "p @ x")
  case Nil
  then show ?thesis by simp
next
  case (Cons a list)
  have "replace_first p r (a # list) = r @ drop (length p) (a # list)"
    using Cons startsWith_append [of p x] by simp
  also have "\<dots> = r @ x"
    unfolding Cons [symmetric] by simp
  finally show ?thesis using Cons by simp
qed

lemma key_chars:
  "LF \<notin> set MASTER_KEY" "CR \<notin> set MASTER_KEY" "LF \<notin> set SLAVE_KEY" "CR \<notin> set SLAVE_KEY"
  by (simp_all add: MASTER_KEY_def SLAVE_KEY_def LF_def CR_def)

lemma keys_differ:
  "\<not> startsWith (MASTER_KEY @ x) SLAVE_KEY" "\<not> startsWith (SLAVE_KEY @ x) MASTER_KEY"
  by (simp_all add: MASTER_KEY_def SLAVE_KEY_def startsWith_def)

lemma split_lines_paths_text:
  assumes "LF \<notin> set m" "CR \<notin> set m" "LF \<notin> set s"
  shows "split_lines (paths_text m s) = [MASTER_KEY @ m, SLAVE_KEY @ s]"
proof -
  have "split_lines ((MASTER_KEY @ m) @ LF # (SLAVE_KEY @ s))
          = (MASTER_KEY @ m) # split_lines (SLAVE_KEY @ s)"
    using assms key_chars by (intro split_lines_append_LF) auto
  moreover have "split_lines (SLAVE_KEY @ s) = [SLAVE_KEY @ s]"
    using assms key_chars by (intro split_lines_no_LF) auto
  ultimately show ?thesis by (simp add: paths_text_def)
qed

lemma readPaths_paths_text:
  assumes "LF \<notin> set m" "CR \<notin> set m" "LF \<notin> set s"
  shows "readPaths (Some (paths_text m s)) = (m, s)"
  by (simp add: readPaths_def split_lines_paths_text [OF assms] read_line_def
      startsWith_append replace_first_prefix keys_differ)

text \<open>
  C10. For all strings \<open>m\<close> and \<open>s\<close> without a line feed or a carriage return (empty or
  not), when \<^verbatim>\<open>savePaths(m, s)\<close> returns, the file it leaves is read back by
  \<^verbatim>\<open>readPaths()\<close> as exactly \<^verbatim>\<open>{ masterFile: m, slaveFile: s }\<close>; and reading when
  the file is absent gives the empty string for both fields.
\<close>

theorem readPaths_after_savePaths:
  assumes "LF \<notin> set m" "CR \<notin> set m" "LF \<notin> set s" "CR \<notin> set s"
    and "savePaths w m s st = Inr st'"
  shows "readPaths (paths_file st') = (m, s) \<and> readPaths None = ([], [])"
proof -
  from assms(5) have "paths_file st' = Some (paths_text m s)"
    by (auto simp: savePaths_def split: option.splits prod.splits)
  moreover have "readPaths None = ([], [])"
    by (simp add: readPaths_def)
  ultimately show ?thesis
    using assms(1-3) by (simp add: readPaths_paths_text)
qed

theorem readPaths_after_savePaths_witness:
  "savePaths (steady None None) ''a.mp4'' ''b.mp4'' (start None)
     = Inr ((start None)\<lparr>paths_file := Some (paths_text ''a.mp4'' ''b.mp4'')\<rparr>)
   \<and> readPaths (Some (paths_text ''a.mp4'' ''b.mp4'')) = (''a.mp4'', ''b.mp4'')
   \<and> readPaths None = ([], [])"
proof -
  have sv: "savePaths (steady None None) ''a.mp4'' ''b.mp4'' (start None)
      = Inr ((start None)\<lparr>paths_file := Some (paths_text ''a.mp4'' ''b.mp4'')\<rparr>)"
    by (simp add: savePaths_def steady_def)
  have "LF \<notin> set ''a.mp4''" "CR \<notin> set ''a.mp4''" "LF \<notin> set ''b.mp4''" "CR \<notin> set ''b.mp4''"
    by (simp_all add: LF_def CR_def)
  from readPaths_after_savePaths [OF this sv] sv show ?thesis by simp
qed

section \<open>From the handler to the cases\<close>

lemma control_dispatch:
  assumes "command req \<noteq> JStr ''savePaths''" "selection_available req (paths_file st)"
  shows "\<exists>mf sf. control w req st = dispatch w req mf sf st"
  using assms
  by (auto simp: control_def selection_available_def Let_def falsy_path_def
      split: option.splits if_splits)

lemma control_refuses:
  assumes "command req \<noteq> JStr ''savePaths''" "\<not> selection_available req (paths_file st)"
  shows "control w req st
    = (Json (Error ''No file paths found. Please save file paths first.''), st)"
  using assms
  by (auto simp: control_def selection_available_def Let_def falsy_path_def
      split: option.splits if_splits)

lemma start_simps [simp]:
  "trace (start file) = []" "master_polls (start file) = 0" "slave_polls (start file) = 0"
  "paths_file (start file) = file"
  by (simp_all add: start_def)

lemma control_pause:
  assumes "command req = JStr ''pause''" "selection_available req (paths_file st)"
  shows "control w req st = case_pause w st"
proof -
  from assms obtain mf sf where "control w req st = dispatch w req mf sf st"
    using control_dispatch [of req st w] by auto
  then show ?thesis using assms(1) by (simp add: dispatch_def)
qed

lemma control_seek:
  assumes "command req = JStr ''seek''" "selection_available req (paths_file st)"
  shows "control w req st = case_seek req st"
proof -
  from assms obtain mf sf where "control w req st = dispatch w req mf sf st"
    using control_dispatch [of req st w] by auto
  then show ?thesis using assms(1) by (simp add: dispatch_def)
qed

lemma control_setSpeed:
  assumes "command req = JStr ''setSpeed''" "selection_available req (paths_file st)"
  shows "control w req st = case_setSpeed req st"
proof -
  from assms obtain mf sf where "control w req st = dispatch w req mf sf st"
    using control_dispatch [of req st w] by auto
  then show ?thesis using assms(1) by (simp add: dispatch_def)
qed

lemma control_skip_forward:
  assumes "command req = JStr ''skip_forward''" "selection_available req (paths_file st)"
  shows "control w req st = case_skip_forward w st"
proof -
  from assms obtain mf sf where "control w req st = dispatch w req mf sf st"
    using control_dispatch [of req st w] by auto
  then show ?thesis using assms(1) by (simp add: dispatch_def)
qed

lemma control_skip_backward:
  assumes "command req = JStr ''skip_backward''" "selection_available req (paths_file st)"
  shows "control w req st = case_skip_backward w st"
proof -
  from assms obtain mf sf where "control w req st = dispatch w req mf sf st"
    using control_dispatch [of req st w] by auto
  then show ?thesis using assms(1) by (simp add: dispatch_def)
qed

lemma control_play:
  assumes "command req = JStr ''play''" "selection_available req (paths_file st)"
  shows "control w req st = case_play w st"
proof -
  from assms obtain mf sf where "control w req st = dispatch w req mf sf st"
    using control_dispatch [of req st w] by auto
  then show ?thesis using assms(1) by (simp add: dispatch_def)
qed

lemma control_sync:
  assumes "command req = JStr ''sync''" "selection_available req (paths_file st)"
  shows "control w req st = case_sync w req st"
proof -
  from assms obtain mf sf where "control w req st = dispatch w req mf sf st"
    using control_dispatch [of req st w] by auto
  then show ?thesis using assms(1) by (simp add: dispatch_def)
qed

lemma control_fullscreen:
  assumes "command req = JStr ''fullscreen''" "selection_available req (paths_file st)"
  shows "control w req st = case_fullscreen w st"
proof -
  from assms obtain mf sf where "control w req st = dispatch w req mf sf st"
    using control_dispatch [of req st w] by auto
  then show ?thesis using assms(1) by (simp add: dispatch_def)
qed

lemma stored_selection:
  assumes "readPaths file = (m, s)" "m \<noteq> []" "s \<noteq> []"
  shows "selection_available req file"
  using assms by (simp add: selection_available_def)

lemma trace_getVLCStatus [simp]: "trace (snd (getVLCStatus w p st)) = trace st"
  by (cases p) (simp_all add: getVLCStatus_def)

lemma trace_sendCommand [simp]: "trace (sendCommand p c st) = trace st @ [Send p c]"
  by (simp add: sendCommand_def)

lemma trace_sleep [simp]: "trace (sleep n st) = trace st @ [Wait n]"
  by (simp add: sleep_def)

lemma readPaths_saved: "readPaths saved = (''a.mp4'', ''b.mp4'')"
  unfolding saved_def by (rule readPaths_paths_text) (simp_all add: LF_def CR_def)

lemma selection_available_saved: "selection_available req saved"
  by (simp add: selection_available_def readPaths_saved)

section \<open>Doubles and string conversion: facts\<close>

lemma round_half_even_int: "round_half_even (of_int n) = n"
  by (simp add: round_half_even_def)

lemma round_half_even_nonneg: "0 \<le> q \<Longrightarrow> 0 \<le> round_half_even q"
  by (auto simp: round_half_even_def Let_def)

lemma round64_zero: "round64 0 = Fin 0"
  by (simp add: round64_def)

text \<open>Whole numbers below \<open>2 ^ 53\<close> are doubles: rounding leaves them as they are.\<close>

lemma round64_exact_int:
  assumes "x \<in> \<int>" "\<bar>x\<bar> < 2 ^ 53"
  shows "round64 x = Fin x"
proof (cases "x = 0")
  case True
  then show ?thesis by (simp add: round64_def)
next
  case False
  from assms(1) obtain k where k: "x = of_int k"
    by (auto elim: Ints_cases)
  with False have "k \<noteq> 0" by auto
  then have "1 \<le> \<bar>k\<bar>" by simp
  then have "(1 :: real) \<le> of_int \<bar>k\<bar>"
    by (simp only: of_int_1_le_iff)
  then have ax: "1 \<le> \<bar>x\<bar>"
    by (simp add: k)
  define e0 where "e0 = \<lfloor>log 2 \<bar>x\<bar>\<rfloor>"
  have lo: "0 \<le> e0"
    using ax by (simp add: e0_def)
  have "log 2 \<bar>x\<bar> < 53"
  proof -
    have "\<bar>x\<bar> < 2 powr 53" using assms(2) by simp
    then show ?thesis using ax by (simp add: log_less_iff)
  qed
  then have hi: "e0 \<le> 52"
    by (simp add: e0_def floor_le_iff)
  define j where "j = nat (52 - e0)"
  have u: "2 powr real_of_int (e0 - 52) = 1 / 2 ^ j"
  proof (cases "e0 = 52")
    case True
    then show ?thesis by (simp add: j_def)
  next
    case False
    with hi have n: "\<not> 0 \<le> e0 - 52" by simp
    have "2 powr real_of_int (e0 - 52)
        = (if 0 \<le> e0 - 52 then 2 ^ nat (e0 - 52) else 1 / 2 ^ nat (- (e0 - 52)))"
      by (rule powr_int) simp
    with n show ?thesis by (simp add: j_def)
  qed
  have q: "x / (1 / 2 ^ j) = of_int (k * 2 ^ j)"
    by (simp add: k)
  have m: "max e0 (- 1022) = e0"
    using lo by simp
  have big: "\<bar>x\<bar> < 2 ^ 1024"
  proof -
    have "(2 :: real) ^ 53 \<le> 2 ^ 1024" by (rule power_increasing) simp_all
    with assms(2) show ?thesis by linarith
  qed
  have r: "1 / 2 ^ j * real_of_int (round_half_even (x / (1 / 2 ^ j))) = x"
    unfolding q round_half_even_int by (simp add: k)
  show ?thesis
    using False big
    unfolding round64_def Let_def e0_def [symmetric] m u r
    by simp
qed

text \<open>Rounding keeps the sign: a result that is not negative rounds to no negative double.\<close>

lemma round64_sign:
  "0 \<le> x \<Longrightarrow> round64 x \<noteq> NegInf \<and> round64 x \<noteq> NaN \<and> (\<forall>r. round64 x = Fin r \<longrightarrow> 0 \<le> r)"
  by (auto simp: round64_def Let_def round_half_even_nonneg split: if_splits)

text \<open>
  Rounding never carries a result of size at most 0.5 beyond 0.5, which is a double.
\<close>

lemma round_half_even_le: "q \<le> of_int N \<Longrightarrow> round_half_even q \<le> N"
proof -
  assume a: "q \<le> of_int N"
  then have f: "\<lfloor>q\<rfloor> \<le> N" by (simp add: floor_le_iff)
  show ?thesis
  proof (cases "\<lfloor>q\<rfloor> = N")
    case True
    then have "q - of_int \<lfloor>q\<rfloor> \<le> 0" using a by simp
    then show ?thesis using True by (simp add: round_half_even_def Let_def)
  next
    case False
    with f have "\<lfloor>q\<rfloor> + 1 \<le> N" by simp
    then show ?thesis by (auto simp: round_half_even_def Let_def)
  qed
qed

lemma round_half_even_ge: "of_int N \<le> q \<Longrightarrow> N \<le> round_half_even q"
proof -
  assume "of_int N \<le> q"
  then have "N \<le> \<lfloor>q\<rfloor>" by (simp add: le_floor_iff)
  then show ?thesis by (auto simp: round_half_even_def Let_def)
qed

lemma round64_small:
  assumes "\<bar>x\<bar> \<le> 1 / 2"
  shows "\<not> abs_exceeds (round64 x) (1 / 2)"
proof (cases "x = 0")
  case True
  then show ?thesis by (simp add: round64_def)
next
  case False
  define e where "e = max \<lfloor>log 2 \<bar>x\<bar>\<rfloor> (- 1022)"
  define u where "u = 2 powr real_of_int (e - 52)"
  define N where "N = (2 :: int) ^ nat (51 - e)"
  have "log 2 \<bar>x\<bar> \<le> log 2 (1 / 2)"
    using assms False by simp
  also have "log 2 (1 / 2) = - 1"
    by (simp add: log_divide)
  finally have "\<lfloor>log 2 \<bar>x\<bar>\<rfloor> \<le> - 1"
    by (simp add: floor_le_iff)
  then have e: "e \<le> - 1"
    by (simp add: e_def)
  have upos: "0 < u" by (simp add: u_def)
  have "2 powr real_of_int (51 - e)
      = (if 0 \<le> 51 - e then 2 ^ nat (51 - e) else 1 / 2 ^ nat (- (51 - e)))"
    by (rule powr_int) simp
  with e have Nr: "real_of_int N = 2 powr real_of_int (51 - e)"
    by (simp add: N_def)
  have "u * real_of_int N = 2 powr (real_of_int (e - 52) + real_of_int (51 - e))"
    unfolding u_def Nr by (simp only: powr_add)
  also have "real_of_int (e - 52) + real_of_int (51 - e) = - 1"
    by simp
  also have "2 powr (- 1 :: real) = 1 / 2"
    by (simp add: powr_minus_divide)
  finally have uN: "u * real_of_int N = 1 / 2" .
  have q1: "x / u \<le> real_of_int N"
  proof -
    have "x \<le> u * real_of_int N" using assms uN by linarith
    then show ?thesis using upos by (simp add: pos_divide_le_eq mult.commute)
  qed
  have q2: "real_of_int (- N) \<le> x / u"
  proof -
    have "- (u * real_of_int N) \<le> x" using assms uN by linarith
    then show ?thesis using upos by (simp add: pos_le_divide_eq mult.commute)
  qed
  have r1: "round_half_even (x / u) \<le> N" using q1 by (rule round_half_even_le)
  have r2: "- N \<le> round_half_even (x / u)" using q2 by (rule round_half_even_ge)
  have "\<bar>u * real_of_int (round_half_even (x / u))\<bar> \<le> u * real_of_int N"
  proof -
    have "\<bar>real_of_int (round_half_even (x / u))\<bar> \<le> real_of_int N"
      using r1 r2 by linarith
    then show ?thesis using upos by (simp add: abs_mult)
  qed
  then have b: "\<bar>u * real_of_int (round_half_even (x / u))\<bar> \<le> 1 / 2"
    using uN by simp
  have "(1 :: real) / 2 < 2 ^ 1024"
    by (rule less_le_trans [of _ 1]) simp_all
  with b have "\<not> 2 ^ 1024 \<le> \<bar>u * real_of_int (round_half_even (x / u))\<bar>"
    by linarith
  then show ?thesis
    using False b
    unfolding round64_def Let_def e_def [symmetric] u_def [symmetric]
    by simp
qed

lemma round64_within_threshold:
  "\<bar>x\<bar> \<le> 1 / 2 \<Longrightarrow> \<not> abs_exceeds (round64 x) threshold"
  using round64_small [of x] by (simp add: threshold_def)

lemma js_max_0_round64:
  assumes "0 \<le> x"
  shows "js_max (Fin 0) (round64 x) = round64 x"
  using round64_sign [OF assms] by (cases "round64 x") auto

lemma round64_not_NaN: "round64 x \<noteq> NaN"
  by (simp add: round64_def Let_def)

lemma js_add_int:
  "a \<in> \<int> \<Longrightarrow> b \<in> \<int> \<Longrightarrow> \<bar>a + b\<bar> < 2 ^ 53 \<Longrightarrow> js_add (Fin a) (Fin b) = Fin (a + b)"
  by (simp add: round64_exact_int)

lemma js_sub_int:
  "a \<in> \<int> \<Longrightarrow> b \<in> \<int> \<Longrightarrow> \<bar>a - b\<bar> < 2 ^ 53 \<Longrightarrow> js_sub (Fin a) (Fin b) = Fin (a - b)"
  by (simp add: js_sub_def round64_exact_int)

lemma js_sub_same: "0 \<le> t \<Longrightarrow> \<not> abs_exceeds (js_sub a a) t"
  by (cases a) (simp_all add: js_sub_def round64_zero)

lemma js_less_total:
  "a \<noteq> NaN \<Longrightarrow> b \<noteq> NaN \<Longrightarrow> a \<noteq> b \<Longrightarrow> js_less a b \<or> js_less b a"
  by (cases a; cases b) auto

lemma js_less_asym: "js_less a b \<Longrightarrow> \<not> js_less b a"
  by (cases a; cases b) auto

lemma js_max_0_add:
  assumes "0 \<le> t" "0 \<le> d"
  shows "js_max (Fin 0) (js_add (round64 t) (Fin d)) = js_add (round64 t) (Fin d)"
proof (cases "round64 t")
  case (Fin r)
  with round64_sign [OF assms(1)] have "0 \<le> r + d"
    using assms(2) by simp
  then show ?thesis
    using Fin by (simp add: js_max_0_round64)
next
  case PosInf
  then show ?thesis by simp
next
  case NegInf
  with round64_sign [OF assms(1)] show ?thesis by simp
next
  case NaN
  with round64_sign [OF assms(1)] show ?thesis by simp
qed

text \<open>
  The bound on the removals in \<open>strip\<close> never cuts the stripping short: any bound from
  the length of the string on gives the same result.
\<close>

lemma strip_Nil: "strip ps n [] = []"
proof (cases n)
  case 0
  then show ?thesis by simp
next
  case (Suc k)
  have "filter (\<lambda>p. p \<noteq> [] \<and> startsWith [] p) ps = []"
    by (auto simp: filter_empty_conv startsWith_def)
  then show ?thesis using Suc by simp
qed

lemma strip_enough:
  "length s \<le> n \<Longrightarrow> length s \<le> m \<Longrightarrow> strip ps n s = strip ps m s"
proof (induction n arbitrary: m s)
  case 0
  then show ?case by (simp add: strip_Nil)
next
  case (Suc n)
  show ?case
  proof (cases "filter (\<lambda>p. p \<noteq> [] \<and> startsWith s p) ps")
    case Nil
    then show ?thesis by (cases m) simp_all
  next
    case (Cons p rest)
    then have "p \<in> set (filter (\<lambda>p. p \<noteq> [] \<and> startsWith s p) ps)" by simp
    then have p: "p \<noteq> []" "take (length p) s = p"
      by (simp_all add: startsWith_def)
    from p(2) have "length p = min (length s) (length p)"
      by (metis length_take)
    with p(1) have l: "length p \<le> length s" "0 < length p"
      by simp_all
    with Suc.prems obtain m' where m: "m = Suc m'"
      by (cases m) auto
    have "Suc 0 \<le> length p"
      using p(1) by (cases p) simp_all
    then have "length (drop (length p) s) \<le> n" "length (drop (length p) s) \<le> m'"
      using Suc.prems l(1) m by auto
    then have "strip ps n (drop (length p) s) = strip ps m' (drop (length p) s)"
      by (rule Suc.IH)
    then show ?thesis
      using Cons m by simp
  qed
qed



text \<open>
  The double of a number that is not a double itself: with \<open>2 ^ p / 2 ^ q \<le> \<bar>x\<bar> <
  2 * 2 ^ p / 2 ^ q\<close>, the doubles around \<open>x\<close> are the multiples of
  \<open>2 ^ p / 2 ^ (52 + q)\<close>, and \<open>x\<close> is rounded to the nearest of them.
\<close>

lemma round_half_even_near:
  assumes "\<bar>q - of_int k\<bar> < 1 / 2"
  shows "round_half_even q = k"
proof -
  have b: "of_int k - 1 / 2 < q" "q < of_int k + 1 / 2"
    using assms by linarith+
  have "\<lfloor>q\<rfloor> = k \<or> \<lfloor>q\<rfloor> = k - 1"
  proof -
    have "q < of_int (k + 1)" using b(2) by simp
    then have "\<lfloor>q\<rfloor> < k + 1" by (simp only: floor_less_iff)
    moreover have "of_int (k - 1) \<le> q" using b(1) by simp
    then have "k - 1 \<le> \<lfloor>q\<rfloor>" by (simp only: le_floor_iff)
    ultimately show ?thesis by linarith
  qed
  then show ?thesis
  proof
    assume f: "\<lfloor>q\<rfloor> = k"
    then have "q - of_int \<lfloor>q\<rfloor> < 1 / 2" using b(2) by simp
    then show ?thesis using f by (simp add: round_half_even_def Let_def)
  next
    assume f: "\<lfloor>q\<rfloor> = k - 1"
    then have "1 / 2 < q - of_int \<lfloor>q\<rfloor>" using b(1) by simp
    then show ?thesis using f by (simp add: round_half_even_def Let_def)
  qed
qed

lemma round64_compute:
  assumes lo: "2 ^ p / 2 ^ q \<le> \<bar>x\<bar>" and hi: "\<bar>x\<bar> < 2 * 2 ^ p / 2 ^ q"
    and e: "int q \<le> 1022 + int p" "int p \<le> 1022 + int q"
    and k: "\<bar>x * 2 ^ (52 + q) / 2 ^ p - of_int k\<bar> < 1 / 2"
  shows "round64 x = Fin (of_int k * 2 ^ p / 2 ^ (52 + q))"
proof -
  define e0 where "e0 = int p - int q"
  have pw: "2 powr real_of_int (int a - int b) = 2 ^ a / 2 ^ b" for a b :: nat
  proof -
    have "2 powr real_of_int (int a - int b) = 2 powr (real a - real b)"
      by simp
    also have "\<dots> = 2 powr real a / 2 powr real b"
      by (simp only: powr_diff)
    also have "\<dots> = 2 ^ a / 2 ^ b"
      by (simp add: powr_realpow)
    finally show ?thesis .
  qed
  have x0: "x \<noteq> 0"
  proof
    assume "x = 0"
    with lo have "(2 :: real) ^ p / 2 ^ q \<le> 0" by simp
    moreover have "(0 :: real) < 2 ^ p / 2 ^ q" by simp
    ultimately show False by linarith
  qed
  have "2 powr real_of_int e0 \<le> \<bar>x\<bar>"
    unfolding e0_def pw using lo .
  moreover have "\<bar>x\<bar> < 2 powr real_of_int (e0 + 1)"
  proof -
    have "2 powr real_of_int (e0 + 1) = 2 powr (real_of_int e0 + 1)" by simp
    also have "\<dots> = 2 powr real_of_int e0 * 2" by (simp only: powr_add) simp
    also have "\<dots> = 2 * 2 ^ p / 2 ^ q" unfolding e0_def pw by simp
    finally show ?thesis using hi by simp
  qed
  ultimately have fl: "\<lfloor>log 2 \<bar>x\<bar>\<rfloor> = e0"
    using x0 by (simp add: floor_log_eq_powr_iff)
  have m: "max e0 (- 1022) = e0"
    using e(1) by (simp add: e0_def)
  have u: "2 powr real_of_int (e0 - 52) = 2 ^ p / 2 ^ (52 + q)"
  proof -
    have "e0 - 52 = int p - int (52 + q)" by (simp add: e0_def)
    then show ?thesis by (simp only: pw)
  qed
  have d: "x / (2 ^ p / 2 ^ (52 + q)) = x * 2 ^ (52 + q) / 2 ^ p"
    by simp
  have r: "round_half_even (x * 2 ^ (52 + q) / 2 ^ p) = k"
    using k by (rule round_half_even_near)
  have kb: "\<bar>real_of_int k\<bar> \<le> 2 ^ 53"
  proof -
    define c where "c = (2 :: real) ^ (52 + q) / 2 ^ p"
    have cpos: "0 < c" by (simp add: c_def)
    have "\<bar>x\<bar> * c < (2 * 2 ^ p / 2 ^ q) * c"
      using hi cpos by (rule mult_strict_right_mono)
    also have "\<dots> = 2 ^ 53"
      by (simp add: c_def power_add)
    finally have y: "\<bar>x * 2 ^ (52 + q) / 2 ^ p\<bar> < 2 ^ 53"
      by (simp add: c_def abs_mult)
    define y where "y = x * 2 ^ (52 + q) / 2 ^ p"
    define B where "B = (2 :: real) ^ 53"
    have "\<bar>y - real_of_int k\<bar> < 1 / 2" "\<bar>y\<bar> < B"
      using k y by (simp_all add: y_def B_def)
    then have "\<bar>real_of_int k\<bar> < B + 1 / 2"
      by linarith
    then have "\<bar>real_of_int k\<bar> < 2 ^ 53 + 1 / 2"
      by (simp add: B_def)
    then have "\<bar>real_of_int k\<bar> < real_of_int (2 ^ 53 + 1)"
      by simp
    then have "\<bar>k\<bar> < 2 ^ 53 + 1"
      by (simp only: of_int_abs [symmetric] of_int_less_iff)
    then have "\<bar>k\<bar> \<le> 2 ^ 53" by simp
    then have "real_of_int \<bar>k\<bar> \<le> real_of_int (2 ^ 53)"
      by (simp only: of_int_le_iff)
    then show ?thesis by simp
  qed
  have big: "\<not> 2 ^ 1024 \<le> \<bar>real_of_int k * 2 ^ p / 2 ^ (52 + q)\<bar>"
  proof -
    have "\<bar>real_of_int k * 2 ^ p / 2 ^ (52 + q)\<bar> = \<bar>real_of_int k\<bar> * (2 ^ p / 2 ^ (52 + q))"
      by (simp add: abs_mult)
    also have "\<dots> \<le> 2 ^ 53 * (2 ^ p / 2 ^ (52 + q))"
      using kb by (intro mult_right_mono) simp_all
    also have "\<dots> = 2 * 2 powr real_of_int e0"
      unfolding e0_def pw by (simp add: power_add)
    also have "\<dots> \<le> 2 * 2 powr real_of_int 1022"
    proof -
      have "e0 \<le> 1022" using e(2) by (simp add: e0_def)
      then have "real_of_int e0 \<le> real_of_int 1022" by (simp only: of_int_le_iff)
      then have "2 powr real_of_int e0 \<le> 2 powr real_of_int 1022"
        by (rule powr_mono) simp
      then show ?thesis by (rule mult_left_mono) simp
    qed
    also have "\<dots> = 2 ^ 1023"
    proof -
      have "2 powr real_of_int 1022 = (2 :: real) ^ 1022"
        by (simp only: of_int_numeral powr_numeral)
      then show ?thesis by simp
    qed
    also have "\<dots> < (2 :: real) ^ 1024"
      by (rule power_strict_increasing) simp_all
    finally show ?thesis by simp
  qed
  show ?thesis
    using x0 big
    unfolding round64_def Let_def fl m u d r
    by (simp add: mult.commute)
qed

text \<open>The doubles of 100.2, 1.1, 0.6 and 10.3.\<close>

lemma round64_100_2: "round64 (1002 / 10) = Fin (7050948166601933 / 2 ^ 46)"
  using round64_compute [of 6 0 "1002 / 10" 7050948166601933] by simp

lemma round64_1_1: "round64 (11 / 10) = Fin (4953959590107546 / 2 ^ 52)"
  using round64_compute [of 0 0 "11 / 10" 4953959590107546] by simp

lemma round64_0_6: "round64 (6 / 10) = Fin (5404319552844595 / 2 ^ 53)"
  using round64_compute [of 0 1 "6 / 10" 5404319552844595] by simp

lemma round64_10_3: "round64 (103 / 10) = Fin (5798384520239514 / 2 ^ 49)"
  using round64_compute [of 3 0 "103 / 10" 5798384520239514] by simp

text \<open>
  Underflow: a result of size at most \<open>2 ^ -1075\<close>, half the smallest double above 0, is
  rounded to 0.
\<close>

lemma round_half_even_half:
  assumes "\<bar>q\<bar> \<le> 1 / 2"
  shows "round_half_even q = 0"
proof -
  consider "q = 1 / 2" | "q = - (1 / 2)" | "\<bar>q\<bar> < 1 / 2"
    using assms by linarith
  then show ?thesis
  proof cases
    case 1
    have "\<lfloor>1 / 2 :: real\<rfloor> = 0"
      by (simp add: floor_eq_iff)
    then show ?thesis unfolding 1 by (simp add: round_half_even_def)
  next
    case 2
    have "\<lfloor>- (1 / 2) :: real\<rfloor> = - 1"
      by (simp add: floor_eq_iff)
    then show ?thesis unfolding 2 by (simp add: round_half_even_def)
  next
    case 3
    then have "\<bar>q - of_int 0\<bar> < 1 / 2" by simp
    then show ?thesis by (rule round_half_even_near)
  qed
qed

lemma round64_underflow:
  assumes "\<bar>x\<bar> * 2 ^ 1075 \<le> 1"
  shows "round64 x = Fin 0"
proof (cases "x = 0")
  case True
  then show ?thesis by (simp add: round64_def)
next
  case False
  define n where "n = (1074 :: nat)"
  have n: "int n = 1074" by (simp add: n_def)
  have "(2 :: real) ^ 1075 = 2 * 2 ^ n" by (simp add: n_def)
  with assms have a: "\<bar>x\<bar> * (2 * 2 ^ n) \<le> 1" by simp
  have pn: "(0 :: real) < 2 ^ n" by simp
  have a1: "\<bar>x\<bar> * 2 ^ n \<le> 1 / 2"
    using a by simp
  have "\<bar>x\<bar> * 2 ^ n < 1" using a1 by linarith
  then have "\<bar>x\<bar> < 1 / 2 ^ n"
    using pn by (simp add: pos_less_divide_eq)
  moreover have "0 < \<bar>x\<bar>" using False by simp
  ultimately have "log 2 \<bar>x\<bar> < log 2 (1 / 2 ^ n)"
    by simp
  also have "log 2 (1 / 2 ^ n) = - real n"
    by (simp add: log_divide log_nat_power)
  finally have "log 2 \<bar>x\<bar> < real_of_int (- 1074)"
    by (simp add: n_def)
  then have "\<lfloor>log 2 \<bar>x\<bar>\<rfloor> < - 1074"
    by (simp only: floor_less_iff)
  then have m: "max \<lfloor>log 2 \<bar>x\<bar>\<rfloor> (- 1022) = - 1022"
    by simp
  have "2 powr real_of_int (- 1022 - 52)
      = (if 0 \<le> (- 1022 - 52 :: int) then 2 ^ nat (- 1022 - 52)
         else 1 / 2 ^ nat (- (- 1022 - 52)))"
    by (rule powr_int) simp
  also have "\<dots> = 1 / 2 ^ n"
    by (simp add: n_def)
  finally have u: "2 powr real_of_int (- 1022 - 52) = 1 / 2 ^ n" .
  have "\<bar>x / (1 / 2 ^ n)\<bar> \<le> 1 / 2"
    using a1 by (simp add: abs_mult)
  then have r: "round_half_even (x / (1 / 2 ^ n)) = 0"
    by (rule round_half_even_half)
  show ?thesis
    using False
    unfolding round64_def Let_def m u r
    by simp
qed

text \<open>
  Strings the language reads as numbers: \<^verbatim>\<open>"1e-324"\<close> is below half the smallest
  double above 0 and is the number 0; a no-break space (U+00A0) before \<^verbatim>\<open>5\<close> is white
  space, and the string is the number 5.
\<close>

lemma StringToNumber_underflow: "StringToNumber ''1e-324'' = Fin 0"
proof -
  have t: "trim ''1e-324'' = ''1e-324''"
    by (simp add: trim_def white_space_def startsWith_def eval_nat_numeral)
  have d: "parse_decimal ''1e-324'' = Some (1 / 10 ^ 324)"
    by (simp add: parse_decimal_def parse_exponent_def is_digit_def digit_value_def)
  have "round64 (1 / 10 ^ 324) = Fin 0"
    by (rule round64_underflow) simp
  then show ?thesis
    by (simp add: StringToNumber_def t parse_radix_def d)
qed

lemma StringToNumber_no_break_space:
  "StringToNumber [CHR 0xC2, CHR 0xA0, CHR ''5''] = Fin 5"
proof -
  have t: "trim [CHR 0xC2, CHR 0xA0, CHR ''5''] = ''5''"
    by (simp add: trim_def white_space_def startsWith_def eval_nat_numeral)
  have d: "parse_decimal ''5'' = Some 5"
    by (simp add: parse_decimal_def parse_exponent_def is_digit_def digit_value_def)
  have "round64 5 = Fin 5"
    by (simp add: round64_exact_int)
  then show ?thesis
    by (simp add: StringToNumber_def t parse_radix_def d)
qed

text \<open>
  Differences of times as the language computes them. Between 100 and 100.2 the drift is
  not above 0.5. Between 1.1 and 0.6 the difference of the two doubles is
  0.5000000000000001, above 0.5, although the difference of the two decimals is 0.5.
  From 10.3, ten seconds back is 0.3000000000000007.
\<close>

lemma drift_100_and_100_2:
  "\<not> abs_exceeds (js_sub (round64 100) (round64 (1002 / 10))) threshold"
proof -
  have a: "round64 100 = Fin 100"
    by (simp add: round64_exact_int)
  have "js_sub (round64 100) (round64 (1002 / 10))
      = round64 (100 - 7050948166601933 / 2 ^ 46)"
    unfolding a round64_100_2 by (simp add: js_sub_def)
  moreover have "\<not> abs_exceeds (round64 (100 - 7050948166601933 / 2 ^ 46)) threshold"
    by (rule round64_within_threshold) simp
  ultimately show ?thesis by simp
qed

lemma drift_1_1_and_0_6:
  "js_sub (round64 (11 / 10)) (round64 (6 / 10)) = Fin (4503599627370497 / 2 ^ 53)
   \<and> abs_exceeds (js_sub (round64 (11 / 10)) (round64 (6 / 10))) threshold"
proof -
  have "js_sub (round64 (11 / 10)) (round64 (6 / 10))
      = round64 (4503599627370497 / 2 ^ 53)"
    unfolding round64_1_1 round64_0_6 by (simp add: js_sub_def)
  moreover have "round64 (4503599627370497 / 2 ^ 53) = Fin (4503599627370497 / 2 ^ 53)"
    using round64_compute [of 0 1 "4503599627370497 / 2 ^ 53" 4503599627370497] by simp
  ultimately show ?thesis
    by (simp add: threshold_def)
qed

lemma back_from_10_3:
  "js_max (Fin 0) (js_sub (round64 (103 / 10)) (Fin 10)) = Fin (84442493013197 / 2 ^ 48)"
proof -
  have "js_sub (round64 (103 / 10)) (Fin 10) = round64 (84442493013197 / 2 ^ 48)"
    unfolding round64_10_3 by (simp add: js_sub_def)
  moreover have "round64 (84442493013197 / 2 ^ 48) = Fin (84442493013197 / 2 ^ 48)"
    using round64_compute [of 0 2 "84442493013197 / 2 ^ 48" 5404319552844608] by simp
  ultimately show ?thesis
    by simp
qed

section \<open>Pause\<close>

text \<open>
  C2. A pause request that gets past the path test: when both status queries succeed,
  the run sends a seek to \<open>maxTime = max masterTime slaveTime\<close> to the master and to the
  slave (the times being \<^verbatim>\<open>status.time || 0\<close>), and only after these two a pause
  command to the master if its state is \<^verbatim>\<open>"playing"\<close> and to the slave if its state is
  \<^verbatim>\<open>"playing"\<close>, and nothing else; when either query gives no status, it answers
  "Could not retrieve VLC status." and sends no command at all.
\<close>

theorem pause_seeks_then_pauses:
  assumes "command req = JStr ''pause''" "selection_available req file"
  shows "(master_replies w 0 = Some sm \<and> slave_replies w 0 = Some ss \<longrightarrow>
            fst (control w req (start file))
              = Json (Message (PausedAt (max (time_or_0 sm) (time_or_0 ss))))
          \<and> trace (snd (control w req (start file)))
              = [Send Master (Seek (JNum (max (time_or_0 sm) (time_or_0 ss)))),
                 Send Slave (Seek (JNum (max (time_or_0 sm) (time_or_0 ss))))]
                @ (if state sm = JStr ''playing'' then [Send Master PlPause] else [])
                @ (if state ss = JStr ''playing'' then [Send Slave PlPause] else []))
       \<and> (master_replies w 0 = None \<or> slave_replies w 0 = None \<longrightarrow>
            fst (control w req (start file)) = Json (Error ''Could not retrieve VLC status.'')
          \<and> trace (snd (control w req (start file))) = [])"
proof -
  have "control w req (start file) = case_pause w (start file)"
    using assms by (simp add: control_pause)
  then show ?thesis
    by (auto simp: case_pause_def getVLCStatus_def sendCommand_def Let_def
        split: option.splits)
qed

text \<open>
  The example of the specification: the master playing at 5.0, the slave paused at 4.0;
  and a master that does not answer.
\<close>

theorem pause_seeks_then_pauses_witness:
  "command (request ''pause'') = JStr ''pause''
   \<and> selection_available (request ''pause'') saved
   \<and> fst (control (steady (Some (player ''playing'' 5)) (Some (player ''paused'' 4)))
            (request ''pause'') (start saved))
      = Json (Message (PausedAt 5))
   \<and> trace (snd (control (steady (Some (player ''playing'' 5)) (Some (player ''paused'' 4)))
                   (request ''pause'') (start saved)))
      = [Send Master (Seek (JNum 5)), Send Slave (Seek (JNum 5)), Send Master PlPause]
   \<and> fst (control (steady None (Some (player ''paused'' 4))) (request ''pause'') (start saved))
      = Json (Error ''Could not retrieve VLC status.'')
   \<and> trace (snd (control (steady None (Some (player ''paused'' 4))) (request ''pause'')
                   (start saved))) = []"
proof -
  have c: "command (request ''pause'') = JStr ''pause''"
    by (simp add: request_def)
  show ?thesis
    using pause_seeks_then_pauses [OF c selection_available_saved,
        of "steady (Some (player ''playing'' 5)) (Some (player ''paused'' 4))"
           "player ''playing'' 5" "player ''paused'' 4"]
      pause_seeks_then_pauses [OF c selection_available_saved,
        of "steady None (Some (player ''paused'' 4))"]
      c selection_available_saved
    by (simp add: steady_def player_def time_or_0_def)
qed

section \<open>Absolute seek\<close>




text \<open>
  The number 0 is falsy, so \<^verbatim>\<open>seekValue && ...\<close> refuses it: a seek to the start is
  answered with the error and no command is sent.
\<close>

lemma seek_zero_refused:
  "control (steady None None) ((request ''seek'')\<lparr>seekValue := JNum 0\<rparr>) (start saved)
     = (Json (Error ''Invalid or missing seek value.''), start saved)"
proof -
  have "control (steady None None) ((request ''seek'')\<lparr>seekValue := JNum 0\<rparr>) (start saved)
      = case_seek ((request ''seek'')\<lparr>seekValue := JNum 0\<rparr>) (start saved)"
    by (rule control_seek) (simp_all add: request_def selection_available_saved)
  then show ?thesis
    by (simp add: case_seek_def request_def round64_zero)
qed

section \<open>Speed\<close>

text \<open>The test of the setSpeed case on a value whose conversion does not throw.\<close>

lemma case_setSpeed_by_kind:
  "case_setSpeed req st
    = (if speed req = JObject None then (Uncaught, st)
       else if (case speed req of
                  JNum x \<Rightarrow> positive (round64 x)
                | JInfinity b \<Rightarrow> b
                | JBool b \<Rightarrow> b
                | JStr s \<Rightarrow> s \<noteq> [] \<and> positive (StringToNumber s)
                | JObject r \<Rightarrow> (case r of None \<Rightarrow> False | Some n \<Rightarrow> positive n)
                | _ \<Rightarrow> False)
       then (Json (Message (SpeedSet (speed req))),
             st\<lparr>trace := trace st @ [Send Master (Rate (speed req)),
                                      Send Slave (Rate (speed req)), Wait 200]\<rparr>)
       else (Json (Error ''Invalid speed value. Must be a positive number.''), st))"
proof (cases "speed req")
  case (JNum x)
  then show ?thesis
    by (cases "round64 x")
       (auto simp: case_setSpeed_def isNaN_def gt_zero_def sendCommand_def sleep_def)
next
  case (JStr s)
  then show ?thesis
    by (cases "StringToNumber s")
       (simp_all add: case_setSpeed_def isNaN_def gt_zero_def sendCommand_def sleep_def)
next
  case (JObject r)
  show ?thesis
  proof (cases r)
    case None
    with JObject show ?thesis
      by (simp add: case_setSpeed_def isNaN_def)
  next
    case (Some n)
    with JObject show ?thesis
      by (cases n)
         (simp_all add: case_setSpeed_def isNaN_def gt_zero_def sendCommand_def sleep_def)
  qed
qed (simp_all add: case_setSpeed_def isNaN_def gt_zero_def sendCommand_def sleep_def)




text \<open>
  The string \<^verbatim>\<open>"1e-324"\<close> is the number 0 to the language, so the test \<^verbatim>\<open>speed > 0\<close>
  refuses it; a no-break space before \<^verbatim>\<open>5\<close> is trimmed, and the string passes.
\<close>

lemma set_speed_of_strings:
  "control (steady None None) ((request ''setSpeed'')\<lparr>speed := JStr ''1e-324''\<rparr>) (start saved)
     = (Json (Error ''Invalid speed value. Must be a positive number.''), start saved)
   \<and> fst (control (steady None None)
            ((request ''setSpeed'')\<lparr>speed := JStr [CHR 0xC2, CHR 0xA0, CHR ''5'']\<rparr>)
            (start saved))
     = Json (Message (SpeedSet (JStr [CHR 0xC2, CHR 0xA0, CHR ''5''])))"
proof -
  have "control (steady None None) ((request ''setSpeed'')\<lparr>speed := v\<rparr>) (start saved)
      = case_setSpeed ((request ''setSpeed'')\<lparr>speed := v\<rparr>) (start saved)" for v
    by (rule control_setSpeed) (simp_all add: request_def selection_available_saved)
  then show ?thesis
    by (simp add: case_setSpeed_by_kind StringToNumber_underflow
        StringToNumber_no_break_space request_def)
qed

section \<open>Saving the selection\<close>

text \<open>
  C6, as amended. A savePaths request: when the master path is missing or empty, the run
  answers "Missing file paths." and leaves the state, the file included, exactly as it
  was, however often the request is repeated. When the master path is not empty, a
  missing or empty slave path is replaced by the master path (the fallback for legacy
  callers); then, provided the write and the read-back after it succeed, the run answers
  "Paths saved successfully." and the whole file is overwritten with the text of that
  pair, which is exactly the supplied pair when both paths are non-empty; and when
  neither path of the pair contains a line feed or a carriage return, the record read
  back from the file is exactly that pair.
\<close>

theorem save_selection:
  assumes "command req = JStr ''savePaths''"
    and "s' = (case slaveFile req of None \<Rightarrow> m | Some s \<Rightarrow> if s = [] then m else s)"
  shows "(falsy_path (masterFile req) \<longrightarrow>
            control w req (start file) = (Json (Error ''Missing file paths.''), start file))
       \<and> (masterFile req = Some m \<and> m \<noteq> [] \<and> write_fault w = None \<and> readback_fault w = None \<longrightarrow>
            control w req (start file)
              = (Json (Message PathsSaved),
                 (start file)\<lparr>paths_file := Some (paths_text m s')\<rparr>)
          \<and> (LF \<notin> set m \<and> CR \<notin> set m \<and> LF \<notin> set s' \<and> CR \<notin> set s' \<longrightarrow>
                readPaths (paths_file (snd (control w req (start file)))) = (m, s')))"
proof -
  have a: "control w req (start file) = (Json (Error ''Missing file paths.''), start file)"
    if "falsy_path (masterFile req)"
    using that assms(1)
    by (auto simp: control_def dispatch_def case_savePaths_def falsy_path_def Let_def
        split: option.splits)
  have b: "control w req (start file)
        = (Json (Message PathsSaved), (start file)\<lparr>paths_file := Some (paths_text m s')\<rparr>)"
    if "masterFile req = Some m" "m \<noteq> []" "write_fault w = None" "readback_fault w = None"
    using that assms
    by (auto simp: control_def dispatch_def case_savePaths_def savePaths_def falsy_path_def
        Let_def split: option.splits)
  show ?thesis
    using a b by (auto simp: readPaths_paths_text)
qed

theorem save_selection_witness:
  "command ((request ''savePaths'')\<lparr>masterFile := Some ''a.mp4'', slaveFile := Some ''b.mp4''\<rparr>)
     = JStr ''savePaths''
   \<and> control (steady None None)
        ((request ''savePaths'')\<lparr>masterFile := Some ''a.mp4'', slaveFile := Some ''b.mp4''\<rparr>)
        (start None)
      = (Json (Message PathsSaved),
         (start None)\<lparr>paths_file := Some (paths_text ''a.mp4'' ''b.mp4'')\<rparr>)
   \<and> readPaths (paths_file (snd (control (steady None None)
        ((request ''savePaths'')\<lparr>masterFile := Some ''a.mp4'', slaveFile := Some ''b.mp4''\<rparr>)
        (start None))))
      = (''a.mp4'', ''b.mp4'')
   \<and> control (steady None None)
        ((request ''savePaths'')\<lparr>masterFile := Some [], slaveFile := Some ''b.mp4''\<rparr>)
        (start saved)
      = (Json (Error ''Missing file paths.''), start saved)"
proof -
  let ?r = "(request ''savePaths'')\<lparr>masterFile := Some ''a.mp4'', slaveFile := Some ''b.mp4''\<rparr>"
  let ?r' = "(request ''savePaths'')\<lparr>masterFile := Some [], slaveFile := Some ''b.mp4''\<rparr>"
  have c: "command ?r = JStr ''savePaths''" and c': "command ?r' = JStr ''savePaths''"
    by (simp_all add: request_def)
  have s: "''b.mp4'' = (case slaveFile ?r of None \<Rightarrow> ''a.mp4''
                        | Some s \<Rightarrow> if s = [] then ''a.mp4'' else s)"
    and s': "''b.mp4'' = (case slaveFile ?r' of None \<Rightarrow> []
                        | Some s \<Rightarrow> if s = [] then [] else s)"
    by (simp_all add: request_def)
  have w: "write_fault (steady None None) = None" "readback_fault (steady None None) = None"
    by (simp_all add: steady_def)
  have m: "masterFile ?r = Some ''a.mp4''" "''a.mp4'' \<noteq> []"
    by (simp_all add: request_def)
  have l: "LF \<notin> set ''a.mp4''" "CR \<notin> set ''a.mp4''" "LF \<notin> set ''b.mp4''" "CR \<notin> set ''b.mp4''"
    by (simp_all add: LF_def CR_def)
  have f: "falsy_path (masterFile ?r')"
    by (simp add: request_def falsy_path_def)
  from save_selection [OF c s, of "steady None None" None] m w l
  have 1: "control (steady None None) ?r (start None)
      = (Json (Message PathsSaved),
         (start None)\<lparr>paths_file := Some (paths_text ''a.mp4'' ''b.mp4'')\<rparr>)"
    and 2: "readPaths (paths_file (snd (control (steady None None) ?r (start None))))
      = (''a.mp4'', ''b.mp4'')"
    by blast+
  from save_selection [OF c' s', of "steady None None" saved] f
  have 3: "control (steady None None) ?r' (start saved)
      = (Json (Error ''Missing file paths.''), start saved)"
    by blast
  from c 1 2 3 show ?thesis
    by (intro conjI)
qed

text \<open>
  The claim as first stated fails: with the master path \<^verbatim>\<open>"a.mp4"\<close> and an empty slave
  path, one of the supplied paths is empty, yet the run reports success and writes the
  file, with \<^verbatim>\<open>"a.mp4"\<close> for both players.
\<close>

theorem save_selection_counterexample:
  "fst (control (steady None None)
          ((request ''savePaths'')\<lparr>masterFile := Some ''a.mp4'', slaveFile := Some []\<rparr>)
          (start None))
     = Json (Message PathsSaved)
   \<and> paths_file (snd (control (steady None None)
          ((request ''savePaths'')\<lparr>masterFile := Some ''a.mp4'', slaveFile := Some []\<rparr>)
          (start None)))
     = Some (paths_text ''a.mp4'' ''a.mp4'')"
  by (simp add: control_def dispatch_def case_savePaths_def savePaths_def falsy_path_def
      request_def steady_def)

section \<open>Relative skip\<close>

text \<open>
  C8. A skip request that gets past the path test, forward (\<open>delta = 10\<close>) or backward
  (\<open>delta = -10\<close>): when both status queries succeed and both times (\<^verbatim>\<open>status.time || 0\<close>)
  are at least 0, the run sends exactly two commands, a seek to the master at
  \<^verbatim>\<open>Math.max(0, its own time + delta)\<close> and a seek to the slave at
  \<^verbatim>\<open>Math.max(0, its own time + delta)\<close>, each computed from that player's own time,
  the time being the double the status document's number is read as and the sum the
  double the language computes; when either query gives no status, it answers
  "Could not retrieve VLC status." and sends no command.
\<close>

theorem skip_relative:
  assumes "selection_available req file"
    and "(command req = JStr ''skip_forward'' \<and> delta = 10)
         \<or> (command req = JStr ''skip_backward'' \<and> delta = - 10)"
  shows "(master_replies w 0 = Some sm \<and> slave_replies w 0 = Some ss
           \<and> 0 \<le> time_or_0 sm \<and> 0 \<le> time_or_0 ss \<longrightarrow>
            trace (snd (control w req (start file)))
              = [Send Master (Seek (num_value
                   (js_max (Fin 0) (js_add (round64 (time_or_0 sm)) (Fin delta))))),
                 Send Slave (Seek (num_value
                   (js_max (Fin 0) (js_add (round64 (time_or_0 ss)) (Fin delta)))))]
          \<and> fst (control w req (start file))
              = Json (Message (if delta = 10 then SkippedForward else SkippedBackward)))
       \<and> (master_replies w 0 = None \<or> slave_replies w 0 = None \<longrightarrow>
            fst (control w req (start file)) = Json (Error ''Could not retrieve VLC status.'')
          \<and> trace (snd (control w req (start file))) = [])"
proof -
  have fw: "js_max (Fin 0) (js_add (round64 t) (Fin 10)) = js_add (round64 t) (Fin 10)"
    if "0 \<le> t" for t
    using that by (intro js_max_0_add) simp_all
  have bw: "js_add a (Fin (- 10)) = js_sub a (Fin 10)" for a
    by (simp add: js_sub_def)
  from assms(2) show ?thesis
  proof
    assume f: "command req = JStr ''skip_forward'' \<and> delta = 10"
    then have "control w req (start file) = case_skip_forward w (start file)"
      using assms(1) by (simp add: control_skip_forward)
    with f show ?thesis
      by (auto simp: case_skip_forward_def getVLCStatus_def Let_def fw
          split: option.splits)
  next
    assume b: "command req = JStr ''skip_backward'' \<and> delta = - 10"
    then have "control w req (start file) = case_skip_backward w (start file)"
      using assms(1) by (simp add: control_skip_backward)
    with b show ?thesis
      by (auto simp: case_skip_backward_def getVLCStatus_def Let_def bw
          split: option.splits)
  qed
qed

theorem skip_relative_witness:
  "selection_available (request ''skip_backward'') saved
   \<and> command (request ''skip_backward'') = JStr ''skip_backward''
   \<and> trace (snd (control (steady (Some (player ''playing'' 25)) (Some (player ''playing'' 4)))
                   (request ''skip_backward'') (start saved)))
      = [Send Master (Seek (JNum 15)), Send Slave (Seek (JNum 0))]
   \<and> trace (snd (control (steady (Some (player ''playing'' 25)) (Some (player ''playing'' 4)))
                   (request ''skip_forward'') (start saved)))
      = [Send Master (Seek (JNum 35)), Send Slave (Seek (JNum 14))]
   \<and> fst (control (steady (Some (player ''playing'' 25)) None)
                   (request ''skip_forward'') (start saved))
      = Json (Error ''Could not retrieve VLC status.'')
   \<and> trace (snd (control (steady (Some (player ''playing'' 25)) None)
                   (request ''skip_forward'') (start saved))) = []"
proof -
  let ?w = "steady (Some (player ''playing'' 25)) (Some (player ''playing'' 4))"
  have b: "(command (request ''skip_backward'') = JStr ''skip_forward'' \<and> (- 10 :: real) = 10)
         \<or> (command (request ''skip_backward'') = JStr ''skip_backward'' \<and> (- 10 :: real) = - 10)"
    by (simp add: request_def)
  have f: "(command (request ''skip_forward'') = JStr ''skip_forward'' \<and> (10 :: real) = 10)
         \<or> (command (request ''skip_forward'') = JStr ''skip_backward'' \<and> (10 :: real) = - 10)"
    by (simp add: request_def)
  have n: "round64 25 = Fin 25" "round64 4 = Fin 4" "round64 15 = Fin 15"
    "round64 (- 6) = Fin (- 6)" "round64 35 = Fin 35" "round64 14 = Fin 14"
    by (simp_all add: round64_exact_int)
  show ?thesis
    using skip_relative [OF selection_available_saved b,
        of ?w "player ''playing'' 25" "player ''playing'' 4"]
      skip_relative [OF selection_available_saved f,
        of ?w "player ''playing'' 25" "player ''playing'' 4"]
      skip_relative [OF selection_available_saved f,
        of "steady (Some (player ''playing'' 25)) None"]
      selection_available_saved [of "request ''skip_backward''"]
    by (simp add: steady_def player_def time_or_0_def request_def n)
qed

section \<open>Sync\<close>

text \<open>The first part of the sync case sends reloads and waits, never a seek.\<close>

lemma seeks_poll_both:
  "filter is_seek (trace (snd (poll_both w n prev st))) = filter is_seek (trace st)"
proof (induction n arbitrary: prev st)
  case 0
  then show ?case by simp
next
  case (Suc n)
  show ?case
    by (simp add: Let_def Suc split: prod.splits)
       (metis trace_getVLCStatus snd_conv)
qed

lemma seeks_getVLCStatus:
  "getVLCStatus w p st = (r, st') \<Longrightarrow> filter is_seek (trace st') = filter is_seek (trace st)"
  by (metis trace_getVLCStatus snd_conv)

lemma seeks_sync_reload:
  assumes "sync_reload w mf sf sm ss st = Inr (r, st')"
  shows "filter is_seek (trace st') = filter is_seek (trace st)"
  using assms
  by (auto simp: sync_reload_def Let_def
      split: option.splits prod.splits if_splits dest!: seeks_getVLCStatus)

lemma seeks_sync_acquire:
  assumes "sync_acquire w mf sf st = Inr (r, st')"
  shows "filter is_seek (trace st') = filter is_seek (trace st)"
proof -
  obtain pm ps st1 where p: "poll_both w 3 (None, None) st = ((pm, ps), st1)"
    by (metis prod.exhaust)
  then have s1: "filter is_seek (trace st1) = filter is_seek (trace st)"
    using seeks_poll_both [of w 3 "(None, None)" st] by simp
  from assms p show ?thesis
    by (auto simp: sync_acquire_def Let_def s1
        split: prod.splits if_splits dest!: seeks_getVLCStatus seeks_sync_reload)
qed

lemma seeks_case_setSpeed:
  "filter is_seek (trace (snd (case_setSpeed req st))) = filter is_seek (trace st)"
  by (simp add: case_setSpeed_by_kind)

lemma case_sync_compare:
  assumes "command req = JStr ''sync''" "readPaths file = (m, s)" "m \<noteq> []" "s \<noteq> []"
    and "sync_acquire w m s (start file) = Inr ((statusMaster, statusSlave), st1)"
  shows "control w req (start file) = sync_compare req statusMaster statusSlave st1"
proof -
  have "control w req (start file) = case_sync w req (start file)"
    using assms(1-4) by (simp add: control_sync stored_selection)
  then show ?thesis
    using assms(2-5) by (simp add: case_sync_def)
qed

text \<open>Players that answer the first query with a time, and are both playing.\<close>

lemma player_simps:
  "has_time (Some (player p a))" "state (player p a) = JStr p" "time (player p a) = Some a"
  by (simp_all add: has_time_def player_def)

lemma poll_both_steady:
  "poll_both (steady (Some (player p a)) (Some (player q b))) 3 (None, None) st
     = ((Some (player p a), Some (player q b)),
        st\<lparr>master_polls := Suc (master_polls st), slave_polls := Suc (slave_polls st)\<rparr>)"
  by (simp add: numeral_3_eq_3 getVLCStatus_def steady_def has_time_def player_def Let_def)

lemma sync_acquire_steady_playing:
  "sync_acquire (steady (Some (player ''playing'' a)) (Some (player ''playing'' b))) m s (start file)
     = Inr ((Some (player ''playing'' a), Some (player ''playing'' b)),
            (start file)\<lparr>master_polls := 1, slave_polls := 1\<rparr>)"
  by (simp add: sync_acquire_def poll_both_steady sync_reload_def player_simps)

text \<open>
  C1. A sync request with both paths saved in the file, in a run whose first part (the
  retries, the recovery and the reloads) ends with a status for each player, the master's
  time being the double \<open>ma\<close> and the slave's the double \<open>sl\<close> (the doubles the numbers
  \<open>a\<close> and \<open>b\<close> of the status documents are read as). The drift is
  \<^verbatim>\<open>Math.abs(ma - sl)\<close>, the difference being the double the language computes. When
  the drift is not above 0.5, the whole run sends no seek to either player. When the drift
  is above 0.5, one of the players is behind the other and the whole run sends exactly one
  seek: to the master with the value \<^verbatim>\<open>sl + 1\<close> when the master is behind, to the slave
  with the value \<^verbatim>\<open>ma + 1\<close> when the slave is behind (the sums being the doubles the
  language computes), and none to the player ahead; right after that seek it sends play
  to the master and to the slave, and this ends the run, with the answer
  "Sync complete. ..." at \<^verbatim>\<open>Math.max(ma, sl) + 1\<close>.
\<close>

theorem sync_corrects_drift:
  assumes "command req = JStr ''sync''" "readPaths file = (m, s)" "m \<noteq> []" "s \<noteq> []"
    and "sync_acquire w m s (start file) = Inr ((Some sm, Some ss), st1)"
    and "time sm = Some a" "time ss = Some b"
    and "ma = round64 a" "sl = round64 b"
  shows "filter is_seek (trace (snd (control w req (start file))))
           = (if \<not> abs_exceeds (js_sub ma sl) threshold then []
              else if js_less ma sl then [Send Master (Seek (num_value (js_add sl (Fin 1))))]
              else [Send Slave (Seek (num_value (js_add ma (Fin 1))))])
       \<and> (abs_exceeds (js_sub ma sl) threshold \<longrightarrow>
            (js_less ma sl \<or> js_less sl ma)
          \<and> trace (snd (control w req (start file)))
              = trace st1
                @ (if js_less ma sl then [Send Master (Seek (num_value (js_add sl (Fin 1))))]
                   else [Send Slave (Seek (num_value (js_add ma (Fin 1))))])
                @ [Send Master PlPlay, Send Slave PlPlay]
          \<and> fst (control w req (start file))
              = Json (Message (SyncComplete (num_value (js_add (js_max ma sl) (Fin 1))))))"
proof -
  have c: "control w req (start file) = sync_compare req (Some sm) (Some ss) st1"
    using assms(1-5) by (rule case_sync_compare)
  have s: "filter is_seek (trace st1) = []"
    using seeks_sync_acquire [OF assms(5)] by simp
  show ?thesis
  proof (cases "abs_exceeds (js_sub ma sl) threshold")
    case True
    have "ma \<noteq> sl"
    proof
      assume "ma = sl"
      with True show False
        using js_sub_same [of threshold sl] by (simp add: threshold_def)
    qed
    moreover have "ma \<noteq> NaN" "sl \<noteq> NaN"
      using assms(8,9) by (simp_all add: round64_not_NaN)
    ultimately have "js_less ma sl \<or> js_less sl ma"
      by (intro js_less_total)
    with True show ?thesis
      unfolding c using assms(6-9) s
      by (auto simp: sync_compare_def Let_def dest: js_less_asym)
  next
    case False
    then show ?thesis
      unfolding c using assms(6-9) s
      by (simp add: sync_compare_def seeks_case_setSpeed)
  qed
qed

text \<open>
  The examples of the specification: the master at 50.0 and the slave at 44.0; the master
  at 100.0 and the slave at 100.2.
\<close>

theorem sync_corrects_drift_witness:
  "command (request ''sync'') = JStr ''sync''
   \<and> readPaths saved = (''a.mp4'', ''b.mp4'')
   \<and> sync_acquire (steady (Some (player ''playing'' 50)) (Some (player ''playing'' 44)))
        ''a.mp4'' ''b.mp4'' (start saved)
      = Inr ((Some (player ''playing'' 50), Some (player ''playing'' 44)),
             (start saved)\<lparr>master_polls := 1, slave_polls := 1\<rparr>)
   \<and> trace (snd (control (steady (Some (player ''playing'' 50)) (Some (player ''playing'' 44)))
                   (request ''sync'') (start saved)))
      = [Send Slave (Seek (JNum 51)), Send Master PlPlay, Send Slave PlPlay]
   \<and> fst (control (steady (Some (player ''playing'' 50)) (Some (player ''playing'' 44)))
            (request ''sync'') (start saved))
      = Json (Message (SyncComplete (JNum 51)))
   \<and> filter is_seek
        (trace (snd (control (steady (Some (player ''playing'' 100)) (Some (player ''playing'' 100.2)))
                   (request ''sync'') (start saved)))) = []"
proof -
  have c: "command (request ''sync'') = JStr ''sync''"
    by (simp add: request_def)
  have n: "''a.mp4'' \<noteq> []" "''b.mp4'' \<noteq> []"
    by simp_all
  have t: "time (player ''playing'' x) = Some x" for x
    by (simp add: player_def)
  have r: "round64 50 = Fin 50" "round64 44 = Fin 44" "round64 6 = Fin 6"
    "round64 51 = Fin 51"
    by (simp_all add: round64_exact_int)
  have d: "js_sub (Fin 50) (Fin 44) = Fin 6"
    by (simp add: js_sub_int)
  have g: "threshold < 6"
    by (simp add: threshold_def)
  have e: "\<not> abs_exceeds (js_sub (round64 100) (round64 (1002 / 10))) threshold"
    using drift_100_and_100_2 .
  show ?thesis
    using sync_corrects_drift
        [OF c readPaths_saved n sync_acquire_steady_playing t t refl refl, of 50 44]
      sync_corrects_drift
        [OF c readPaths_saved n sync_acquire_steady_playing t t refl refl, of 100 "1002 / 10"]
      c readPaths_saved sync_acquire_steady_playing [of 50 44 "''a.mp4''" "''b.mp4''" saved]
    by (simp add: r d e [simplified] g)
qed



section \<open>Play\<close>

text \<open>
  C3. A play request with both paths saved in the file. When neither player's queried
  state is \<^verbatim>\<open>"paused"\<close>, the run sends, in this order: the enqueue of the saved media
  to the master and to the slave, the advance to the enqueued entry to both, the rate 1.0
  to both, the seek to 0 to both; it waits 1000 ms; then it sends play to the master and
  to the slave. When either player's state is \<^verbatim>\<open>"paused"\<close>, the run starts with play
  to the master and to the slave, and sends no enqueue, advance, rate or seek at all. In
  both cases what follows is a wait of 300 ms and nothing but fullscreen toggles.
\<close>

theorem play_cold_start_or_resume:
  assumes "command req = JStr ''play''" "readPaths file = (m, s)" "m \<noteq> []" "s \<noteq> []"
  shows "\<exists>rest. trace (snd (control w req (start file)))
           = (if is_paused (master_replies w 0) \<or> is_paused (slave_replies w 0) then []
              else [Send Master (InEnqueue m), Send Slave (InEnqueue s),
                    Send Master PlNext, Send Slave PlNext,
                    Send Master (Rate (JNum 1)), Send Slave (Rate (JNum 1)),
                    Send Master (Seek (JNum 0)), Send Slave (Seek (JNum 0)),
                    Wait 1000])
             @ [Send Master PlPlay, Send Slave PlPlay, Wait 300] @ rest
         \<and> set rest \<subseteq> {Send Master ToggleFullscreen, Send Slave ToggleFullscreen}"
proof -
  have "control w req (start file) = case_play w (start file)"
    using assms by (simp add: control_play stored_selection)
  then show ?thesis
    using assms(2-4)
    by (auto simp: case_play_def getVLCStatus_def sendCommand_def sleep_def Let_def
        split: option.splits)
qed

theorem play_cold_start_or_resume_witness:
  "command (request ''play'') = JStr ''play''
   \<and> readPaths saved = (''a.mp4'', ''b.mp4'')
   \<and> (\<exists>rest. trace (snd (control
                 (steady (Some (player ''stopped'' 0)) (Some (player ''stopped'' 0)))
                 (request ''play'') (start saved)))
           = [Send Master (InEnqueue ''a.mp4''), Send Slave (InEnqueue ''b.mp4''),
              Send Master PlNext, Send Slave PlNext,
              Send Master (Rate (JNum 1)), Send Slave (Rate (JNum 1)),
              Send Master (Seek (JNum 0)), Send Slave (Seek (JNum 0)),
              Wait 1000, Send Master PlPlay, Send Slave PlPlay, Wait 300] @ rest
         \<and> set rest \<subseteq> {Send Master ToggleFullscreen, Send Slave ToggleFullscreen})
   \<and> (\<exists>rest. trace (snd (control
                 (steady (Some (player ''playing'' 7)) (Some (player ''paused'' 7)))
                 (request ''play'') (start saved)))
           = [Send Master PlPlay, Send Slave PlPlay, Wait 300] @ rest
         \<and> set rest \<subseteq> {Send Master ToggleFullscreen, Send Slave ToggleFullscreen})"
proof -
  have c: "command (request ''play'') = JStr ''play''"
    by (simp add: request_def)
  have n: "''a.mp4'' \<noteq> []" "''b.mp4'' \<noteq> []"
    by simp_all
  show ?thesis
    using play_cold_start_or_resume [OF c readPaths_saved n,
        of "steady (Some (player ''stopped'' 0)) (Some (player ''stopped'' 0))"]
      play_cold_start_or_resume [OF c readPaths_saved n,
        of "steady (Some (player ''playing'' 7)) (Some (player ''paused'' 7))"]
      c readPaths_saved
    by (simp add: is_paused_def steady_def player_def)
qed

section \<open>One response for every request\<close>

text \<open>
  C7 does not hold of the handler. The fullscreen case reads
  \<^verbatim>\<open>statusMaster.fullscreen\<close> without testing the status, as the pause and skip cases do
  before they read theirs: when the master does not answer, the read throws, nothing
  catches it, and the run ends without any response. Here the paths are saved and
  neither player answers.
\<close>

theorem fullscreen_with_unreachable_player:
  "fst (control (steady None None) (request ''fullscreen'') (start saved)) = Uncaught"
proof -
  have "control (steady None None) (request ''fullscreen'') (start saved)
      = case_fullscreen (steady None None) (start saved)"
    by (rule control_fullscreen) (simp_all add: request_def selection_available_saved)
  then show ?thesis
    by (simp add: case_fullscreen_def getVLCStatus_def steady_def Let_def)
qed

text \<open>
  Whenever a run does end with a response, that response is one of the two shapes by
  construction: \<open>Json (Message m)\<close> or \<open>Json (Error e)\<close>. The play case ends without a
  response in the same way when a player stops answering between its two queries.
\<close>

lemma play_with_player_lost:
  "fst (control \<lparr>master_replies = (\<lambda>k. if k = 0 then Some (player ''stopped'' 0) else None),
                  slave_replies = (\<lambda>k. Some (player ''stopped'' 0)), write_fault = None, readback_fault = None\<rparr>
          (request ''play'') (start saved)) = Uncaught"
proof -
  let ?w = "\<lparr>master_replies = (\<lambda>k. if k = 0 then Some (player ''stopped'' 0) else None),
             slave_replies = (\<lambda>k. Some (player ''stopped'' 0)), write_fault = None, readback_fault = None\<rparr>"
  have "control ?w (request ''play'') (start saved) = case_play ?w (start saved)"
    by (rule control_play) (simp_all add: request_def selection_available_saved)
  then show ?thesis
    by (simp add: case_play_def readPaths_saved getVLCStatus_def is_paused_def player_def
        sendCommand_def sleep_def Let_def)
qed

end
